theory Spec2Isabelle
  imports Main "HOL-Library.Word" "HOL-Library.AList"
begin

section \<open>JavaScript strings\<close>

text \<open>
  A JavaScript string is a sequence of UTF-16 code units. Regular expressions without the
  \<open>u\<close> flag, \<open>length\<close> and \<open>trim\<close> all work on code units, so a string is a list of
  16-bit words. \<open>js\<close> embeds an ASCII literal of the source.
\<close>

type_synonym jsstring = "16 word list"

definition js :: "string \<Rightarrow> jsstring" where
  "js s = map (\<lambda>c. of_nat (of_char c)) s"

text \<open>
  The code units \<open>String.prototype.trim\<close> removes: the WhiteSpace and LineTerminator
  productions of ECMAScript (TAB, VT, FF, SP, NBSP, ZWNBSP, the other space separators,
  LF, CR, LS, PS).
\<close>

definition isWhiteSpace :: "16 word \<Rightarrow> bool" where
  "isWhiteSpace c \<longleftrightarrow>
     c = 0x0009 \<or> c = 0x000A \<or> c = 0x000B \<or> c = 0x000C \<or> c = 0x000D \<or> c = 0x0020 \<or>
     c = 0x00A0 \<or> c = 0x1680 \<or> (0x2000 \<le> c \<and> c \<le> 0x200A) \<or> c = 0x2028 \<or>
     c = 0x2029 \<or> c = 0x202F \<or> c = 0x205F \<or> c = 0x3000 \<or> c = 0xFEFF"

definition trim :: "jsstring \<Rightarrow> jsstring" where
  "trim s = rev (dropWhile isWhiteSpace (rev (dropWhile isWhiteSpace s)))"

section \<open>i18n\_widget.js: the deliberate language detector\<close>

text \<open>
  Both regular expressions of \<open>detectClientLangFromInput\<close> are a single character class,
  so a match is one code unit. The class of \<open>AR_RE\<close> (line 3) and of \<open>/[A-Za-z]/g\<close> (line 8):
\<close>

definition AR_RE :: "16 word \<Rightarrow> bool" where
  "AR_RE c \<longleftrightarrow>
     (0x0600 \<le> c \<and> c \<le> 0x06FF) \<or> (0x0750 \<le> c \<and> c \<le> 0x077F) \<or>
     (0x08A0 \<le> c \<and> c \<le> 0x08FF) \<or> (0xFB50 \<le> c \<and> c \<le> 0xFDFF) \<or>
     (0xFE70 \<le> c \<and> c \<le> 0xFEFF)"

definition LATIN_RE :: "16 word \<Rightarrow> bool" where
  "LATIN_RE c \<longleftrightarrow> (0x41 \<le> c \<and> c \<le> 0x5A) \<or> (0x61 \<le> c \<and> c \<le> 0x7A)"

text \<open>
  \<open>String.prototype.match\<close> with a character class. Without the \<open>g\<close> flag the result is
  \<open>null\<close> or the match array of the first match: one element, the matched text (there is
  no capture group). With the \<open>g\<close> flag it is \<open>null\<close> or the array of all matches.
\<close>

definition match_first :: "(16 word \<Rightarrow> bool) \<Rightarrow> jsstring \<Rightarrow> jsstring list option" where
  "match_first cls text = (case List.find cls text of None \<Rightarrow> None | Some c \<Rightarrow> Some [[c]])"

definition match_global :: "(16 word \<Rightarrow> bool) \<Rightarrow> jsstring \<Rightarrow> jsstring list option" where
  "match_global cls text =
     (case filter cls text of [] \<Rightarrow> None | c # cs \<Rightarrow> Some (map (\<lambda>d. [d]) (c # cs)))"

text \<open>\<open>m || []\<close> for a match result \<open>m\<close>: an array is truthy, \<open>null\<close> is not.\<close>

definition or_empty :: "'a list option \<Rightarrow> 'a list" where
  "or_empty m = (case m of None \<Rightarrow> [] | Some xs \<Rightarrow> xs)"

text \<open>
  Lines 5 to 12. The result \<open>null\<close> is \<open>None\<close>. \<open>AR_RE\<close> is declared without the \<open>g\<close>
  flag and is matched with \<open>match_first\<close>; the Latin expression carries the flag.
\<close>

definition detectClientLangFromInput :: "jsstring \<Rightarrow> jsstring option" where
  "detectClientLangFromInput text =
     (if text = [] \<or> length (trim text) = 0 then None
      else
        let arMatches = length (or_empty (match_first AR_RE text));
            latinMatches = length (or_empty (match_global LATIN_RE text))
        in if arMatches \<ge> 2 \<and> arMatches \<ge> latinMatches then Some (js ''ar'')
           else if latinMatches \<ge> 2 \<and> latinMatches \<ge> arMatches then Some (js ''en'')
           else None)"

text \<open>
  The counts the specification speaks of: the number of characters of the text in the
  Arabic ranges, and the number of basic Latin letters.
\<close>

definition arabicCount :: "jsstring \<Rightarrow> nat" where
  "arabicCount text = length (filter AR_RE text)"

definition latinCount :: "jsstring \<Rightarrow> nat" where
  "latinCount text = length (filter LATIN_RE text)"

section \<open>widget.js: constants and data\<close>

definition API_CHAT :: jsstring where
  "API_CHAT = js ''/api/chat''"

definition STORAGE_KEY :: jsstring where
  "STORAGE_KEY = js ''chat_widget_session''"

definition MAX_RETRIES :: nat where
  "MAX_RETRIES = 4"

text \<open>The session object: \<open>{ session_id, created_at }\<close>, both strings (line 65).\<close>

record Session =
  session_id :: jsstring
  created_at :: jsstring

text \<open>
  \<open>JSON.parse\<close> and \<open>JSON.stringify\<close> belong to the platform. A text kept in
  \<open>localStorage\<close> is represented by what \<open>JSON.parse\<close> makes of it: \<open>JSON_of s\<close> is the
  JSON text of the session object \<open>s\<close>, which is what \<open>JSON.stringify\<close> writes and what
  \<open>JSON.parse\<close> reads back; \<open>NotJSON t\<close> is a string \<open>t\<close> that is not a JSON text (the empty
  string is one), on which \<open>JSON.parse\<close> throws a SyntaxError. Stored JSON texts of another
  shape than a session object are outside this model.
\<close>

datatype jstext = NotJSON jsstring | JSON_of Session

datatype js_error = SyntaxError | FetchFailed | TypeError

definition JSON_stringify :: "Session \<Rightarrow> jstext" where
  "JSON_stringify s = JSON_of s"

definition JSON_parse :: "jstext \<Rightarrow> js_error + Session" where
  "JSON_parse t = (case t of NotJSON _ \<Rightarrow> Inl SyntaxError | JSON_of s \<Rightarrow> Inr s)"

text \<open>\<open>!s\<close> for the result of \<open>localStorage.getItem\<close>: \<open>null\<close> and the empty string are falsy.\<close>

definition no_text :: "jstext option \<Rightarrow> bool" where
  "no_text s \<longleftrightarrow> s = None \<or> s = Some (NotJSON [])"

text \<open>\<open>localStorage\<close>: keys with their texts. \<open>getItem\<close> of a missing key is \<open>null\<close>.\<close>

type_synonym storage = "(jsstring \<times> jstext) list"

definition getItem :: "jsstring \<Rightarrow> storage \<Rightarrow> jstext option" where
  "getItem k ls = map_of ls k"

definition setItem :: "jsstring \<Rightarrow> jstext \<Rightarrow> storage \<Rightarrow> storage" where
  "setItem k v ls = AList.update k v ls"

text \<open>An attached file: its name and its bytes.\<close>

record File =
  file_name :: jsstring
  file_bytes :: "8 word list"

text \<open>
  A response body that parses to an object. The backend's contract (header comment of
  widget.js) is a JSON object whose \<open>reply\<close>, \<open>session_id\<close> and \<open>error\<close> members, when
  present, are strings; a member that is missing is \<open>None\<close> (\<open>undefined\<close> in the source).
  Members of another type than string are outside this model.
\<close>

record InboundReply =
  data_reply :: "jsstring option"
  data_session_id :: "jsstring option"
  data_error :: "jsstring option"

definition empty_object :: InboundReply where
  "empty_object = \<lparr>data_reply = None, data_session_id = None, data_error = None\<rparr>"

text \<open>
  What \<open>resp.json()\<close> resolves with, \<open>data\<close>: \<open>null\<close>, on which reading a member throws a
  TypeError; an object; or another JSON value (a number, a string, a boolean, an array), on
  which the three members read as \<open>undefined\<close>.
\<close>

datatype parsed = JsonNull | JsonObject InboundReply | JsonOther

text \<open>
  What the widget reads of a response: \<open>status\<close>, \<open>statusText\<close>,
  \<open>headers.get("Retry-After")\<close> (\<open>None\<close> for \<open>null\<close>) and the outcome of \<open>resp.json()\<close>
  (\<open>None\<close> when that promise rejects: the body is not a JSON text).
\<close>

record Response =
  status :: nat
  statusText :: jsstring
  retryAfter :: "jsstring option"
  json :: "parsed option"

definition ok :: "Response \<Rightarrow> bool" where
  "ok resp \<longleftrightarrow> 200 \<le> status resp \<and> status resp \<le> 299"

text \<open>The promise returned by \<open>fetch\<close> resolves with a response or rejects (network failure).\<close>

datatype outcome = Rejected | Resolved Response

text \<open>Request bodies: the entries of a \<open>FormData\<close>, or the JSON text of an object.\<close>

datatype form_value = FileEntry File | TextEntry jsstring

datatype json_value = JNull | JString jsstring

datatype body = FormData "(jsstring \<times> form_value) list" | JSON_body "(jsstring \<times> json_value) list"

text \<open>
  The \<open>opts\<close> object handed to \<open>fetch\<close>; \<open>http_method\<close> is its \<open>method\<close>. \<open>header\<close> reads
  \<open>opts.headers[name]\<close>.
\<close>

record opts =
  http_method :: jsstring
  headers :: "(jsstring \<times> jsstring) list option"
  body :: body

definition header :: "opts \<Rightarrow> jsstring \<Rightarrow> jsstring option" where
  "header opts name = (case headers opts of None \<Rightarrow> None | Some h \<Rightarrow> map_of h name)"

text \<open>
  JavaScript numbers as far as the widget computes them: NaN, or an integer of magnitude
  at most \<open>2 ^ 53\<close>, which a double holds exactly. A value past that range is \<open>Beyond\<close>: a
  large or infinite double that the model does not compute. \<open>times_1000 x\<close> is \<open>x * 1000\<close>.
\<close>

datatype jsnum = NaN | Num int | Beyond

definition exact :: "int \<Rightarrow> jsnum" where
  "exact v = (if abs v \<le> 2 ^ 53 then Num v else Beyond)"

fun times_1000 :: "jsnum \<Rightarrow> jsnum" where
  "times_1000 (Num a) = exact (a * 1000)"
| "times_1000 NaN = NaN"
| "times_1000 Beyond = Beyond"

datatype sender = User | Bot

text \<open>
  The environment of a call: what the page and the network answer. \<open>server n\<close> is how the
  fetch of the \<open>n\<close>-th request of the page (counted from 0) settles.
\<close>

record env =
  meta_content :: "jsstring option"
  CHAT_WIDGET_TOKEN :: "jsstring option"
  langSelect_value :: jsstring
  random_suffix :: jsstring
  now_iso :: jsstring
  server :: "nat \<Rightarrow> outcome"

text \<open>
  The mutable state: \<open>localStorage\<close>, the module variables \<open>session\<close> and \<open>inFlight\<close>, the
  message nodes appended to \<open>messagesEl\<close> (sender class and text), and logs of the calls of
  \<open>inputEl.focus\<close>, \<open>fetch\<close>, \<open>setTimeout\<close> (the delay) and \<open>console.error\<close>.
\<close>

record world =
  localStorage :: storage
  session :: Session
  inFlight :: bool
  messagesEl :: "(sender \<times> jsstring) list"
  focus_calls :: nat
  fetch_log :: "(jsstring \<times> opts) list"
  timer_log :: "jsnum list"
  console_log :: "js_error list"

section \<open>widget.js: helpers\<close>

text \<open>
  Lines 51 to 56. \<open>meta_content\<close> is the \<open>content\<close> of the meta element named
  \<open>chat-widget-token\<close>, \<open>None\<close> when the page has no such element.
\<close>

definition getToken :: "env \<Rightarrow> jsstring option" where
  "getToken e =
     (case meta_content e of
        Some c \<Rightarrow> if c \<noteq> [] then Some c
                  else (case CHAT_WIDGET_TOKEN e of
                          Some t \<Rightarrow> if t \<noteq> [] then Some t else None | None \<Rightarrow> None)
      | None \<Rightarrow> (case CHAT_WIDGET_TOKEN e of
                   Some t \<Rightarrow> if t \<noteq> [] then Some t else None | None \<Rightarrow> None))"

text \<open>Lines 58 to 60; \<open>random_suffix\<close> is \<open>Math.random().toString(36).slice(2,10)\<close>.\<close>

definition genSessionId :: "env \<Rightarrow> jsstring" where
  "genSessionId e = js ''sess-'' @ random_suffix e"

text \<open>
  Lines 62 to 69. The result is the parsed session, or the SyntaxError of \<open>JSON.parse\<close>,
  with the storage as the call leaves it.
\<close>

definition getSession :: "env \<Rightarrow> storage \<Rightarrow> (js_error + Session) \<times> storage" where
  "getSession e ls =
     (let s = getItem STORAGE_KEY ls in
      if no_text s then
        let s' = JSON_stringify \<lparr>session_id = genSessionId e, created_at = now_iso e\<rparr>;
            ls' = setItem STORAGE_KEY s' ls
        in (JSON_parse s', ls')
      else (case s of Some t \<Rightarrow> (JSON_parse t, ls) | None \<Rightarrow> (Inl SyntaxError, ls)))"

text \<open>Lines 100 to 114: a node with the sender's class and the text is appended.\<close>

definition appendMessage :: "sender \<Rightarrow> jsstring \<Rightarrow> world \<Rightarrow> world" where
  "appendMessage who t w = w\<lparr>messagesEl := messagesEl w @ [(who, t)]\<rparr>"

text \<open>
  Line 80 and line 236: loading the script reads the session and appends the greeting.
  A throwing \<open>getSession\<close> aborts the script.
\<close>

definition greeting :: "env \<Rightarrow> jsstring" where
  "greeting e =
     (if langSelect_value e = js ''ar''
      then [0x0645, 0x0631, 0x062D, 0x0628, 0x0627, 0x064B, 0x0021, 0x0020, 0x0643, 0x064A,
            0x0641, 0x0020, 0x0623, 0x0633, 0x062A, 0x0637, 0x064A, 0x0639, 0x0020, 0x0645,
            0x0633, 0x0627, 0x0639, 0x062F, 0x062A, 0x0643, 0x061F]
      else js ''Hello! How can I help you today?'')"

definition load_widget :: "env \<Rightarrow> storage \<Rightarrow> js_error + world" where
  "load_widget e ls =
     (case getSession e ls of
        (Inl err, ls') \<Rightarrow> Inl err
      | (Inr s, ls') \<Rightarrow>
          Inr (appendMessage Bot (greeting e)
                 \<lparr>localStorage = ls', session = s, inFlight = False, messagesEl = [],
                  focus_calls = 0, fetch_log = [], timer_log = [], console_log = []\<rparr>))"

section \<open>widget.js: the retrying transport\<close>

text \<open>
  \<open>parseInt(s, 10)\<close>: leading white space is skipped, a sign is read, then the longest run
  of decimal digits; no digit gives NaN. What follows the digits is ignored.
\<close>

definition isDigit :: "16 word \<Rightarrow> bool" where
  "isDigit c \<longleftrightarrow> 0x30 \<le> c \<and> c \<le> 0x39"

definition digits_value :: "jsstring \<Rightarrow> int" where
  "digits_value ds = foldl (\<lambda>a c. a * 10 + (uint c - 48)) 0 ds"

definition parseInt10 :: "jsstring \<Rightarrow> jsnum" where
  "parseInt10 s =
     (let t = dropWhile isWhiteSpace s;
          sign = (case t of c # _ \<Rightarrow> if c = 0x2D then - 1 else 1 | [] \<Rightarrow> 1);
          u = (case t of c # r \<Rightarrow> if c = 0x2D \<or> c = 0x2B then r else t | [] \<Rightarrow> []);
          ds = takeWhile isDigit u
      in if ds = [] then NaN else exact (sign * digits_value ds))"

text \<open>The decimal digits of a number, as a template literal prints \<open>resp.status\<close>.\<close>

fun decimal :: "nat \<Rightarrow> jsstring" where
  "decimal n = (if n < 10 then [of_nat (48 + n)]
                else decimal (n div 10) @ [of_nat (48 + n mod 10)])"

declare decimal.simps [simp del]

text \<open>Lines 118 to 121: the headers every attempt sets on \<open>opts\<close>.\<close>

definition attach_headers :: "env \<Rightarrow> opts \<Rightarrow> world \<Rightarrow> opts" where
  "attach_headers e opts w =
     (let token = getToken e;
          h0 = (case headers opts of None \<Rightarrow> [] | Some h \<Rightarrow> h);
          h1 = AList.update (js ''X-Client-Session'') (session_id (session w)) h0;
          h2 = (case token of
                  None \<Rightarrow> h1
                | Some t \<Rightarrow>
                    (case map_of h1 (js ''Authorization'') of
                       None \<Rightarrow> AList.update (js ''Authorization'') (js ''Bearer '' @ t) h1
                     | Some a \<Rightarrow>
                         if a = [] then AList.update (js ''Authorization'') (js ''Bearer '' @ t) h1
                         else h1))
      in opts\<lparr>headers := Some h2\<rparr>)"

text \<open>Line 123: the request is logged; the network decides how it settles.\<close>

definition fetch :: "env \<Rightarrow> jsstring \<Rightarrow> opts \<Rightarrow> world \<Rightarrow> outcome \<times> world" where
  "fetch e url opts w =
     (server e (length (fetch_log w)), w\<lparr>fetch_log := fetch_log w @ [(url, opts)]\<rparr>)"

text \<open>Lines 125 and 126.\<close>

definition waitMs :: "Response \<Rightarrow> nat \<Rightarrow> jsnum" where
  "waitMs resp attempt =
     (case retryAfter resp of
        None \<Rightarrow> exact (2 ^ attempt * 500)
      | Some ra \<Rightarrow> if ra \<noteq> [] then times_1000 (parseInt10 ra)
                   else exact (2 ^ attempt * 500))"

text \<open>Line 127: the delay handed to \<open>setTimeout\<close> is logged.\<close>

definition setTimeout :: "jsnum \<Rightarrow> world \<Rightarrow> world" where
  "setTimeout ms w = w\<lparr>timer_log := timer_log w @ [ms]\<rparr>"

text \<open>
  Lines 117 to 131. A rejected \<open>fetch\<close> is the error result; no handler stands between
  \<open>fetch\<close> and the caller.
\<close>

function fetchWithRetry ::
  "env \<Rightarrow> jsstring \<Rightarrow> opts \<Rightarrow> nat \<Rightarrow> world \<Rightarrow> (js_error + Response) \<times> world" where
  "fetchWithRetry e url opts attempt w =
     (let opts1 = attach_headers e opts w in
      case fetch e url opts1 w of
        (Rejected, w1) \<Rightarrow> (Inl FetchFailed, w1)
      | (Resolved resp, w1) \<Rightarrow>
          if status resp = 429 \<and> attempt < MAX_RETRIES then
            fetchWithRetry e url opts1 (attempt + 1) (setTimeout (waitMs resp attempt) w1)
          else (Inr resp, w1))"
  by pat_completeness auto
termination
  by (relation "measure (\<lambda>(e, url, opts, attempt, w). MAX_RETRIES - attempt)") auto

declare fetchWithRetry.simps [simp del]

section \<open>widget.js: the submission controller\<close>

text \<open>The fixed texts of lines 136, 173 and 186; U+2014 is the dash of the source.\<close>

definition please_wait :: jsstring where
  "please_wait = js ''Please wait '' @ [0x2014] @ js '' processing previous message.''"

definition no_reply :: jsstring where
  "no_reply = js ''No reply from server''"

definition network_error :: jsstring where
  "network_error = js ''Network error '' @ [0x2014] @ js '' please try again.''"

text \<open>Line 145: \<open>messageText || (file && file.name) || ''\<close>.\<close>

definition own_text :: "jsstring \<Rightarrow> File option \<Rightarrow> jsstring" where
  "own_text messageText file =
     (if messageText \<noteq> [] then messageText
      else (case file of None \<Rightarrow> [] | Some f \<Rightarrow> file_name f))"

text \<open>\<open>langSelect.value || "en"\<close>.\<close>

definition language :: "env \<Rightarrow> jsstring" where
  "language e = (if langSelect_value e \<noteq> [] then langSelect_value e else js ''en'')"

text \<open>
  Lines 149 to 166 without the call of \<open>fetchWithRetry\<close>: the \<open>opts\<close> built for a file
  (a \<open>FormData\<close>, no header yet) and for none (the JSON text, with its content type).
  An intent is \<open>None\<close> for \<open>null\<close>; \<open>if (intent)\<close> and \<open>intent || null\<close> take the empty
  string for no intent.
\<close>

definition compose :: "env \<Rightarrow> jsstring \<Rightarrow> File option \<Rightarrow> jsstring option \<Rightarrow> world \<Rightarrow> opts" where
  "compose e messageText file intent w =
     (case file of
        Some f \<Rightarrow>
          \<lparr>http_method = js ''POST'',
           headers = Some [],
           body = FormData
             ([(js ''file'', FileEntry f),
               (js ''session_id'', TextEntry (session_id (session w))),
               (js ''message'', TextEntry messageText),
               (js ''language'', TextEntry (language e))] @
              (case intent of
                 None \<Rightarrow> []
               | Some i \<Rightarrow> if i \<noteq> [] then [(js ''intent'', TextEntry i)] else []))\<rparr>
      | None \<Rightarrow>
          \<lparr>http_method = js ''POST'',
           headers = Some [(js ''Content-Type'', js ''application/json'')],
           body = JSON_body
             [(js ''session_id'', JString (session_id (session w))),
              (js ''message'', JString messageText),
              (js ''language'', JString (language e)),
              (js ''intent'',
                 (case intent of
                    None \<Rightarrow> JNull
                  | Some i \<Rightarrow> if i \<noteq> [] then JString i else JNull))]\<rparr>)"

text \<open>Line 181: \<open>data.error || resp.statusText || `HTTP ${resp.status}`\<close>.\<close>

definition errText :: "InboundReply \<Rightarrow> Response \<Rightarrow> jsstring" where
  "errText data resp =
     (let fallback = (if statusText resp \<noteq> [] then statusText resp
                      else js ''HTTP '' @ decimal (status resp))
      in case data_error data of
           None \<Rightarrow> fallback
         | Some err \<Rightarrow> if err \<noteq> [] then err else fallback)"

text \<open>Lines 172 to 183, for the members \<open>data\<close> has.\<close>

definition render_response :: "InboundReply \<Rightarrow> Response \<Rightarrow> world \<Rightarrow> world" where
  "render_response data resp w =
     (if ok resp then
        let reply = (case data_reply data of
                       None \<Rightarrow> no_reply
                     | Some r \<Rightarrow> if r \<noteq> [] then r else no_reply);
            w1 = appendMessage Bot reply w
        in case data_session_id data of
             None \<Rightarrow> w1
           | Some sid \<Rightarrow>
               if sid \<noteq> [] \<and> sid \<noteq> session_id (session w1) then
                 let s' = (session w1)\<lparr>session_id := sid\<rparr>
                 in w1\<lparr>session := s',
                       localStorage := setItem STORAGE_KEY (JSON_stringify s') (localStorage w1)\<rparr>
               else w1
      else appendMessage Bot (js ''Error: '' @ errText data resp) w)"

text \<open>
  Lines 169 to 183: what is done with the response \<open>fetchWithRetry\<close> returned. A rejected
  \<open>resp.json()\<close> makes \<open>data\<close> the empty object. When \<open>data\<close> is \<open>null\<close>, the first statement
  of either branch (\<open>data.reply\<close>, line 173, or \<open>data.error\<close>, line 181) throws before anything
  is changed.
\<close>

definition handle_response :: "Response \<Rightarrow> world \<Rightarrow> js_error + world" where
  "handle_response resp w =
     (case json resp of
        None \<Rightarrow> Inr (render_response empty_object resp w)
      | Some JsonNull \<Rightarrow> Inl TypeError
      | Some (JsonObject data) \<Rightarrow> Inr (render_response data resp w)
      | Some JsonOther \<Rightarrow> Inr (render_response empty_object resp w))"

text \<open>Lines 184 to 187: the catch block.\<close>

definition handle_error :: "js_error \<Rightarrow> world \<Rightarrow> world" where
  "handle_error err w =
     appendMessage Bot network_error (w\<lparr>console_log := console_log w @ [err]\<rparr>)"

text \<open>The rest of the try block once the response is there, under its catch block.\<close>

definition try_response :: "Response \<Rightarrow> world \<Rightarrow> world" where
  "try_response resp w =
     (case handle_response resp w of Inr w' \<Rightarrow> w' | Inl err \<Rightarrow> handle_error err w)"

text \<open>The \<open>finally\<close> block, line 188.\<close>

definition release :: "world \<Rightarrow> world" where
  "release w = w\<lparr>inFlight := False\<rparr>"

text \<open>
  Lines 134 to 190, run from the call to the end with no other code of the page running
  at the awaits.
\<close>

definition sendMessageToServer ::
  "env \<Rightarrow> jsstring \<Rightarrow> File option \<Rightarrow> jsstring option \<Rightarrow> world \<Rightarrow> world" where
  "sendMessageToServer e messageText file intent w =
     (if inFlight w then appendMessage Bot please_wait w
      else if messageText = [] \<and> file = None then w\<lparr>focus_calls := focus_calls w + 1\<rparr>
      else
        let w1 = w\<lparr>inFlight := True\<rparr>;
            w2 = appendMessage User (own_text messageText file) w1;
            w4 = (case fetchWithRetry e API_CHAT (compose e messageText file intent w2) 0 w2 of
                    (Inr resp, w3) \<Rightarrow> try_response resp w3
                  | (Inl err, w3) \<Rightarrow> handle_error err w3)
        in release w4)"

text \<open>
  The state of a submission when the response it waited for arrives, after \<open>k\<close> retried
  attempts that were answered with the responses \<open>rs 0\<close>, \<dots>, \<open>rs (k - 1)\<close>: the flag is set,
  the user's message is shown, \<open>k + 1\<close> requests and \<open>k\<close> waits have been made.
\<close>

definition sent ::
  "env \<Rightarrow> jsstring \<Rightarrow> File option \<Rightarrow> jsstring option \<Rightarrow> world \<Rightarrow> nat \<Rightarrow> (nat \<Rightarrow> Response) \<Rightarrow> world"
  where
  "sent e m f i w k rs =
     w\<lparr>inFlight := True,
       messagesEl := messagesEl w @ [(User, own_text m f)],
       fetch_log := fetch_log w @
         replicate (Suc k) (API_CHAT, attach_headers e (compose e m f i w) w),
       timer_log := timer_log w @ map (\<lambda>j. waitMs (rs j) j) [0..<k]\<rparr>"

section \<open>widget.js: submissions suspended at their awaits\<close>

text \<open>
  An async function runs until its next \<open>await\<close>; other code of the page, another call of
  \<open>sendMessageToServer\<close> among it, may run before it is resumed. A submission is suspended
  at \<open>await fetch\<close> (line 123, with the \<open>opts\<close>, the attempt and the number of its request),
  at the backoff promise (line 127, with the attempt that follows) or at \<open>await resp.json()\<close>
  (line 170).
\<close>

datatype suspended =
    AwaitFetch jsstring opts nat nat
  | AwaitTimer jsstring opts nat
  | AwaitJson Response

datatype event =
    Call jsstring "File option" "jsstring option"
  | Resume nat

text \<open>\<open>fetchWithRetry\<close> from its entry to \<open>await fetch\<close>.\<close>

definition begin_fetch :: "env \<Rightarrow> jsstring \<Rightarrow> opts \<Rightarrow> nat \<Rightarrow> world \<Rightarrow> world \<times> suspended" where
  "begin_fetch e url opts attempt w =
     (let opts1 = attach_headers e opts w in
      case fetch e url opts1 w of
        (_, w1) \<Rightarrow> (w1, AwaitFetch url opts1 attempt (length (fetch_log w))))"

text \<open>A suspended submission runs to its next await, or to its end (\<open>None\<close>).\<close>

fun resume :: "env \<Rightarrow> suspended \<Rightarrow> world \<Rightarrow> world \<times> suspended option" where
  "resume e (AwaitFetch url opts1 attempt n) w =
     (case server e n of
        Rejected \<Rightarrow> (release (handle_error FetchFailed w), None)
      | Resolved resp \<Rightarrow>
          if status resp = 429 \<and> attempt < MAX_RETRIES then
            (setTimeout (waitMs resp attempt) w, Some (AwaitTimer url opts1 (attempt + 1)))
          else (w, Some (AwaitJson resp)))"
| "resume e (AwaitTimer url opts1 attempt) w =
     (case begin_fetch e url opts1 attempt w of (w1, t) \<Rightarrow> (w1, Some t))"
| "resume e (AwaitJson resp) w = (release (try_response resp w), None)"

text \<open>
  The page: the state and the suspended submissions. A call runs \<open>sendMessageToServer\<close> to
  its first await or its return; \<open>Resume k\<close> resumes the \<open>k\<close>-th suspended submission and
  does nothing when there is none. A run is a sequence of events, each with the environment
  it happens in.
\<close>

type_synonym page = "world \<times> suspended list"

fun settle :: "nat \<Rightarrow> suspended list \<Rightarrow> world \<times> suspended option \<Rightarrow> page" where
  "settle k ts (w, None) = (w, take k ts @ drop (Suc k) ts)"
| "settle k ts (w, Some t) = (w, ts[k := t])"

fun step :: "env \<Rightarrow> event \<Rightarrow> page \<Rightarrow> page" where
  "step e (Call messageText file intent) (w, ts) =
     (if inFlight w then (appendMessage Bot please_wait w, ts)
      else if messageText = [] \<and> file = None then (w\<lparr>focus_calls := focus_calls w + 1\<rparr>, ts)
      else
        let w1 = w\<lparr>inFlight := True\<rparr>;
            w2 = appendMessage User (own_text messageText file) w1
        in case begin_fetch e API_CHAT (compose e messageText file intent w2) 0 w2 of
             (w3, t) \<Rightarrow> (w3, ts @ [t]))"
| "step e (Resume k) (w, ts) =
     (if k < length ts then settle k ts (resume e (ts ! k) w) else (w, ts))"

definition run :: "(env \<times> event) list \<Rightarrow> page \<Rightarrow> page" where
  "run evs p = foldl (\<lambda>q (e, ev). step e ev q) p evs"

text \<open>How many resumptions a suspended submission needs at most until it ends.\<close>

fun resumptions_left :: "suspended \<Rightarrow> nat" where
  "resumptions_left (AwaitFetch url opts1 attempt n) = 2 * (MAX_RETRIES - attempt) + 2"
| "resumptions_left (AwaitTimer url opts1 attempt) = 2 * (MAX_RETRIES - attempt) + 3"
| "resumptions_left (AwaitJson resp) = 1"

text \<open>The same run with the calls made while a submission is in flight left out.\<close>

fun step_unless_busy :: "env \<Rightarrow> event \<Rightarrow> page \<Rightarrow> page" where
  "step_unless_busy e (Call messageText file intent) (w, ts) =
     (if inFlight w then (w, ts) else step e (Call messageText file intent) (w, ts))"
| "step_unless_busy e (Resume k) (w, ts) = step e (Resume k) (w, ts)"

definition run_unless_busy :: "(env \<times> event) list \<Rightarrow> page \<Rightarrow> page" where
  "run_unless_busy evs p = foldl (\<lambda>q (e, ev). step_unless_busy e ev q) p evs"

text \<open>
  \<open>woven xs ys\<close>: the messages \<open>ys\<close> are the messages \<open>xs\<close> with "please wait" notices
  put in between.
\<close>

fun woven :: "(sender \<times> jsstring) list \<Rightarrow> (sender \<times> jsstring) list \<Rightarrow> bool" where
  "woven xs [] = (xs = [])"
| "woven [] (y # ys) = (y = (Bot, please_wait) \<and> woven [] ys)"
| "woven (x # xs) (y # ys) =
     ((x = y \<and> woven xs ys) \<or> (y = (Bot, please_wait) \<and> woven (x # xs) ys))"

text \<open>Two pages that differ in such notices only.\<close>

definition same_but_notices :: "page \<Rightarrow> page \<Rightarrow> bool" where
  "same_but_notices p q \<longleftrightarrow>
     snd q = snd p \<and> fst q = (fst p)\<lparr>messagesEl := messagesEl (fst q)\<rparr> \<and>
     woven (messagesEl (fst p)) (messagesEl (fst q))"

text \<open>At most one submission is suspended, and the flag is set exactly when one is.\<close>

definition single_flight :: "page \<Rightarrow> bool" where
  "single_flight p \<longleftrightarrow> length (snd p) \<le> 1 \<and> (inFlight (fst p) \<longleftrightarrow> snd p \<noteq> [])"

section \<open>Sample pages and networks\<close>

text \<open>
  Concrete inputs on which the theorems below are exercised. \<open>sample_world\<close> is the page
  right after the script has loaded on an empty storage.
\<close>

definition sample_session :: Session where
  "sample_session =
     \<lparr>session_id = js ''sess-k3x9q2ab'', created_at = js ''2024-05-01T10:00:00.000Z''\<rparr>"

definition sample_world :: world where
  "sample_world =
     \<lparr>localStorage = [(STORAGE_KEY, JSON_of sample_session)],
      session = sample_session,
      inFlight = False,
      messagesEl = [(Bot, js ''Hello! How can I help you today?'')],
      focus_calls = 0, fetch_log = [], timer_log = [], console_log = []\<rparr>"

definition sample_env :: "(nat \<Rightarrow> outcome) \<Rightarrow> env" where
  "sample_env srv =
     \<lparr>meta_content = None, CHAT_WIDGET_TOKEN = Some (js ''tok''),
      langSelect_value = js ''en'', random_suffix = js ''k3x9q2ab'',
      now_iso = js ''2024-05-01T10:00:00.000Z'', server = srv\<rparr>"

definition sample_opts :: opts where
  "sample_opts = \<lparr>http_method = js ''POST'', headers = Some [], body = JSON_body []\<rparr>"

definition too_many :: Response where
  "too_many =
     \<lparr>status = 429, statusText = js ''Too Many Requests'', retryAfter = None, json = None\<rparr>"

definition server_down :: Response where
  "server_down =
     \<lparr>status = 503, statusText = js ''Service Unavailable'', retryAfter = None, json = None\<rparr>"

definition always :: "Response \<Rightarrow> nat \<Rightarrow> outcome" where
  "always r n = Resolved r"

definition offline :: "nat \<Rightarrow> outcome" where
  "offline n = Rejected"

definition sample_file :: File where
  "sample_file = \<lparr>file_name = js ''photo.png'', file_bytes = [0x89, 0x50, 0x4E, 0x47]\<rparr>"

definition adopting :: Response where
  "adopting =
     \<lparr>status = 200, statusText = js ''OK'', retryAfter = None,
      json = Some (JsonObject \<lparr>data_reply = Some (js ''Hi there''),
                   data_session_id = Some (js ''srv-123''), data_error = None\<rparr>)\<rparr>"

definition garbled :: Response where
  "garbled = \<lparr>status = 200, statusText = js ''OK'', retryAfter = None, json = None\<rparr>"

definition refused :: Response where
  "refused =
     \<lparr>status = 400, statusText = js ''Bad Request'', retryAfter = None,
      json = Some (JsonObject \<lparr>data_reply = None, data_session_id = None,
                   data_error = Some (js ''message too long'')\<rparr>)\<rparr>"

definition bare_500 :: Response where
  "bare_500 = \<lparr>status = 500, statusText = [], retryAfter = None, json = None\<rparr>"

definition null_body :: Response where
  "null_body = \<lparr>status = 200, statusText = js ''OK'', retryAfter = None, json = Some JsonNull\<rparr>"

definition dated :: Response where
  "dated =
     \<lparr>status = 429, statusText = js ''Too Many Requests'',
      retryAfter = Some (js ''Wed, 21 Oct 2015 07:28:00 GMT''), json = None\<rparr>"

definition sample_events :: "(env \<times> event) list" where
  "sample_events =
     map (Pair (sample_env (always adopting)))
       [Call (js ''hi'') None None, Call (js ''again'') None None, Resume 0,
        Call (js ''third'') None None, Resume 0]"

section \<open>The language detector: what it returns\<close>

lemma length_match_first: "length (or_empty (match_first cls s)) \<le> 1"
  by (simp add: match_first_def or_empty_def split: option.split)

lemma length_match_global: "length (or_empty (match_global cls s)) = length (filter cls s)"
  by (simp add: match_global_def or_empty_def split: list.split)

text \<open>What the code has for the Arabic count: 1 when there is an Arabic character, else 0.\<close>

lemma match_first_count:
  "length (or_empty (match_first cls s)) = min 1 (length (filter cls s))"
proof (cases "List.find cls s")
  case None
  then have "filter cls s = []"
    by (simp add: find_None_iff filter_empty_conv)
  with None show ?thesis by (simp add: match_first_def or_empty_def)
next
  case (Some c)
  then have "c \<in> set (filter cls s)"
    by (auto simp: find_Some_iff)
  then have "1 \<le> length (filter cls s)"
    by (cases "filter cls s") auto
  with Some show ?thesis by (simp add: match_first_def or_empty_def)
qed

lemma dropWhile_all: "(\<forall>x \<in> set (dropWhile P xs). P x) \<longleftrightarrow> (\<forall>x \<in> set xs. P x)"
  by (induction xs) auto

lemma trim_empty_iff: "length (trim s) = 0 \<longleftrightarrow> (\<forall>c \<in> set s. isWhiteSpace c)"
  by (simp add: trim_def dropWhile_eq_Nil_conv dropWhile_all)

text \<open>The detector as the code computes it: "en" for two Latin letters or more, else null.\<close>

lemma detect_en_iff:
  "detectClientLangFromInput s = Some (js ''en'') \<longleftrightarrow>
     (\<exists>c \<in> set s. \<not> isWhiteSpace c) \<and> 2 \<le> latinCount s"
  using length_match_first [of AR_RE s] trim_empty_iff [of s]
  by (auto simp add: detectClientLangFromInput_def Let_def js_def length_match_global
      latinCount_def)

lemma detect_blank:
  "\<forall>c \<in> set s. isWhiteSpace c \<Longrightarrow> detectClientLangFromInput s = None"
  using trim_empty_iff [of s] by (simp add: detectClientLangFromInput_def)

lemmas detect_defs =
  detectClientLangFromInput_def trim_def isWhiteSpace_def AR_RE_def LATIN_RE_def
  match_first_def match_global_def or_empty_def js_def arabicCount_def latinCount_def

lemma detect_examples:
  "detectClientLangFromInput [] = None"
  "detectClientLangFromInput (js ''   '') = None"
  "detectClientLangFromInput (js ''1234'') = None"
  "detectClientLangFromInput (js ''abc'') = Some (js ''en'')"
  by (simp_all add: detect_defs)

text \<open>
  Claim C1. The claim: a text with at least two Arabic characters, and no more Latin letters
  than Arabic characters, is detected as "ar"; so \<open>detect("\<dots>")\<close> for the five Arabic letters
  of "marhaba" (U+0645 U+0631 U+062D U+0628 U+0627) is "ar". The code returns \<open>null\<close> on
  that text: it has five Arabic characters and no Latin letter, and \<open>match\<close> with the
  non-global \<open>AR_RE\<close> yields one match.
\<close>

theorem marhaba_not_detected:
  "arabicCount [0x0645, 0x0631, 0x062D, 0x0628, 0x0627] = 5 \<and>
   latinCount [0x0645, 0x0631, 0x062D, 0x0628, 0x0627] = 0 \<and>
   length (or_empty (match_first AR_RE [0x0645, 0x0631, 0x062D, 0x0628, 0x0627])) = 1 \<and>
   detectClientLangFromInput [0x0645, 0x0631, 0x062D, 0x0628, 0x0627] = None"
  by (simp add: detect_defs)

text \<open>
  Claim C8. The claim: the result is "en" exactly when the text has at least two Latin
  letters, at least as many Latin letters as Arabic characters, and the Arabic branch did
  not fire. The code returns "en" on "hi " followed by the five Arabic letters above: two
  Latin letters against five Arabic characters. The Arabic count the code compares with
  is 1 there.
\<close>

theorem mostly_arabic_detected_en:
  "latinCount (js ''hi '' @ [0x0645, 0x0631, 0x062D, 0x0628, 0x0627]) = 2 \<and>
   arabicCount (js ''hi '' @ [0x0645, 0x0631, 0x062D, 0x0628, 0x0627]) = 5 \<and>
   detectClientLangFromInput (js ''hi '' @ [0x0645, 0x0631, 0x062D, 0x0628, 0x0627]) =
     Some (js ''en'')"
  by (simp add: detect_defs)

text \<open>
  Claim C10. For every input string \<open>detectClientLangFromInput\<close> never returns "ar": the
  Arabic expression is not global, the Arabic match count is at most 1 for any input, and
  the test \<open>arMatches >= 2\<close> never holds.
\<close>

theorem never_ar:
  "length (or_empty (match_first AR_RE s)) \<le> 1 \<and>
   \<not> (2 \<le> length (or_empty (match_first AR_RE s))) \<and>
   detectClientLangFromInput s \<noteq> Some (js ''ar'')"
proof -
  have "length (or_empty (match_first AR_RE s)) \<le> 1"
    by (rule length_match_first)
  then show ?thesis
    by (auto simp add: detectClientLangFromInput_def Let_def js_def)
qed

section \<open>The retrying transport: requests and waits\<close>

lemma header_names_differ: "js ''X-Client-Session'' \<noteq> js ''Authorization''"
  by (simp add: js_def)

text \<open>Attaching the headers again, with the session unchanged, changes nothing.\<close>

lemma attach_headers_fixed:
  "session w' = session w \<Longrightarrow>
   attach_headers e (attach_headers e opts w) w' = attach_headers e opts w"
  using header_names_differ
  by (auto simp: attach_headers_def Let_def AList.update_conv' AList.update_triv js_def
      split: option.splits)

text \<open>One attempt: the fetch rejects, the response is returned, or the attempt is retried.\<close>

lemma fetchWithRetry_rejected:
  "server e (length (fetch_log w)) = Rejected \<Longrightarrow>
   fetchWithRetry e url opts a w =
     (Inl FetchFailed, w\<lparr>fetch_log := fetch_log w @ [(url, attach_headers e opts w)]\<rparr>)"
  by (simp add: fetchWithRetry.simps [of e url opts a w] fetch_def)

lemma fetchWithRetry_returns:
  "server e (length (fetch_log w)) = Resolved r \<Longrightarrow> status r \<noteq> 429 \<or> MAX_RETRIES \<le> a \<Longrightarrow>
   fetchWithRetry e url opts a w =
     (Inr r, w\<lparr>fetch_log := fetch_log w @ [(url, attach_headers e opts w)]\<rparr>)"
  by (auto simp add: fetchWithRetry.simps [of e url opts a w] fetch_def)

lemma fetchWithRetry_retries:
  "server e (length (fetch_log w)) = Resolved r \<Longrightarrow> status r = 429 \<Longrightarrow> a < MAX_RETRIES \<Longrightarrow>
   fetchWithRetry e url opts a w =
     fetchWithRetry e url (attach_headers e opts w) (a + 1)
       (setTimeout (waitMs r a)
          (w\<lparr>fetch_log := fetch_log w @ [(url, attach_headers e opts w)]\<rparr>))"
  by (simp add: fetchWithRetry.simps [of e url opts a w] fetch_def Let_def)

lemma map_upt_shift: "map f [0..<Suc k] = f 0 # map (\<lambda>i. f (Suc i)) [0..<k]"
  by (simp add: upt_conv_Cons map_Suc_upt [symmetric] del: upt_Suc)

text \<open>
  The whole call, when the network answers \<open>k\<close> times with 429 and then with \<open>out\<close>, which
  is the last attempt allowed or not a 429: \<open>k + 1\<close> identical requests, \<open>k\<close> waits.
\<close>

lemma fetchWithRetry_run:
  assumes "\<forall>i<k. server e (length (fetch_log w) + i) = Resolved (rs i) \<and> status (rs i) = 429"
    and "a + k \<le> MAX_RETRIES"
    and "server e (length (fetch_log w) + k) = out"
    and "a + k = MAX_RETRIES \<or> (\<forall>r. out = Resolved r \<longrightarrow> status r \<noteq> 429)"
  shows "fetchWithRetry e url opts a w =
     ((case out of Rejected \<Rightarrow> Inl FetchFailed | Resolved r \<Rightarrow> Inr r),
      w\<lparr>fetch_log := fetch_log w @ replicate (Suc k) (url, attach_headers e opts w),
        timer_log := timer_log w @ map (\<lambda>i. waitMs (rs i) (a + i)) [0..<k]\<rparr>)"
  using assms
proof (induction k arbitrary: a w opts rs)
  case 0
  show ?case
  proof (cases out)
    case Rejected
    with 0 show ?thesis by (simp add: fetchWithRetry_rejected)
  next
    case (Resolved r)
    with 0 have "status r \<noteq> 429 \<or> MAX_RETRIES \<le> a" by auto
    with 0 Resolved show ?thesis by (simp add: fetchWithRetry_returns)
  qed
next
  case (Suc k)
  let ?req = "(url, attach_headers e opts w)"
  let ?w = "setTimeout (waitMs (rs 0) a) (w\<lparr>fetch_log := fetch_log w @ [?req]\<rparr>)"
  from Suc.prems(1) have "server e (length (fetch_log w) + 0) = Resolved (rs 0) \<and> status (rs 0) = 429"
    by blast
  then have first: "server e (length (fetch_log w)) = Resolved (rs 0)" "status (rs 0) = 429"
    by simp_all
  from Suc.prems(2) have a: "a < MAX_RETRIES" by simp
  have len: "length (fetch_log ?w) = Suc (length (fetch_log w))"
    by (simp add: setTimeout_def)
  have rest: "\<forall>i<k. server e (length (fetch_log ?w) + i) = Resolved (rs (Suc i)) \<and>
      status (rs (Suc i)) = 429"
  proof (intro allI impI)
    fix i assume "i < k"
    then have "Suc i < Suc k" by simp
    with Suc.prems(1)
    have "server e (length (fetch_log w) + Suc i) = Resolved (rs (Suc i)) \<and>
        status (rs (Suc i)) = 429"
      by blast
    then show "server e (length (fetch_log ?w) + i) = Resolved (rs (Suc i)) \<and>
        status (rs (Suc i)) = 429"
      by (simp add: len)
  qed
  have out: "server e (length (fetch_log ?w) + k) = out"
    using Suc.prems(3) by (simp add: len)
  have bound: "(a + 1) + k \<le> MAX_RETRIES"
    "(a + 1) + k = MAX_RETRIES \<or> (\<forall>r. out = Resolved r \<longrightarrow> status r \<noteq> 429)"
    using Suc.prems(2,4) by auto
  have fixed: "attach_headers e (attach_headers e opts w) ?w = attach_headers e opts w"
    by (rule attach_headers_fixed) (simp add: setTimeout_def)
  have "fetchWithRetry e url opts a w =
      fetchWithRetry e url (attach_headers e opts w) (a + 1) ?w"
    using first a by (rule fetchWithRetry_retries)
  also have "\<dots> = ((case out of Rejected \<Rightarrow> Inl FetchFailed | Resolved r \<Rightarrow> Inr r),
      ?w\<lparr>fetch_log := fetch_log ?w @
             replicate (Suc k) (url, attach_headers e (attach_headers e opts w) ?w),
         timer_log := timer_log ?w @
             map (\<lambda>i. waitMs (rs (Suc i)) ((a + 1) + i)) [0..<k]\<rparr>)"
    using rest bound(1) out bound(2) by (rule Suc.IH)
  also have "\<dots> = ((case out of Rejected \<Rightarrow> Inl FetchFailed | Resolved r \<Rightarrow> Inr r),
      w\<lparr>fetch_log := fetch_log w @ replicate (Suc (Suc k)) ?req,
        timer_log := timer_log w @ map (\<lambda>i. waitMs (rs i) (a + i)) [0..<Suc k]\<rparr>)"
    unfolding fixed map_upt_shift [of "\<lambda>i. waitMs (rs i) (a + i)" k]
    by (simp add: setTimeout_def)
  finally show ?case .
qed

text \<open>
  Whatever the network answers, the call sends the same request between 1 and
  \<open>MAX_RETRIES + 1\<close> times, waits once between two requests, and touches no other state.
\<close>

lemma fetchWithRetry_frame:
  "\<exists>k tl res. 1 \<le> k \<and> length tl + 1 = k \<and>
     (a \<le> MAX_RETRIES \<longrightarrow> a + k \<le> MAX_RETRIES + 1) \<and>
     fetchWithRetry e url opts a w =
       (res, w\<lparr>fetch_log := fetch_log w @ replicate k (url, attach_headers e opts w),
               timer_log := timer_log w @ tl\<rparr>)"
proof (induction "MAX_RETRIES - a" arbitrary: a w opts)
  case 0
  show ?case
  proof (cases "server e (length (fetch_log w))")
    case Rejected
    then show ?thesis
      by (intro exI [of _ 1] exI [of _ "[]"] exI [of _ "Inl FetchFailed"])
         (simp add: fetchWithRetry_rejected)
  next
    case (Resolved r)
    with 0 show ?thesis
      by (intro exI [of _ 1] exI [of _ "[]"] exI [of _ "Inr r"])
         (simp add: fetchWithRetry_returns)
  qed
next
  case (Suc n)
  show ?case
  proof (cases "server e (length (fetch_log w))")
    case Rejected
    then show ?thesis
      by (intro exI [of _ 1] exI [of _ "[]"] exI [of _ "Inl FetchFailed"])
         (simp add: fetchWithRetry_rejected)
  next
    case (Resolved r)
    show ?thesis
    proof (cases "status r = 429")
      case False
      with Resolved show ?thesis
        by (intro exI [of _ 1] exI [of _ "[]"] exI [of _ "Inr r"])
           (simp add: fetchWithRetry_returns)
    next
      case True
      let ?req = "(url, attach_headers e opts w)"
      let ?w = "setTimeout (waitMs r a) (w\<lparr>fetch_log := fetch_log w @ [?req]\<rparr>)"
      from Suc.hyps(2) have a: "a < MAX_RETRIES" "n = MAX_RETRIES - (a + 1)"
        by simp_all
      from Suc.hyps(1) [OF a(2), of "attach_headers e opts w" ?w]
      obtain k tl res where k: "1 \<le> k" "length tl + 1 = k" "a + 1 + k \<le> MAX_RETRIES + 1"
        and run: "fetchWithRetry e url (attach_headers e opts w) (a + 1) ?w =
          (res, ?w\<lparr>fetch_log := fetch_log ?w @
                     replicate k (url, attach_headers e (attach_headers e opts w) ?w),
                   timer_log := timer_log ?w @ tl\<rparr>)"
        using a(1) by auto
      have fixed: "attach_headers e (attach_headers e opts w) ?w = attach_headers e opts w"
        by (rule attach_headers_fixed) (simp add: setTimeout_def)
      have "fetchWithRetry e url opts a w =
          (res, w\<lparr>fetch_log := fetch_log w @ replicate (Suc k) ?req,
                  timer_log := timer_log w @ (waitMs r a # tl)\<rparr>)"
        unfolding fetchWithRetry_retries [OF Resolved True a(1)] run fixed
        by (simp add: setTimeout_def)
      with k show ?thesis
        by (intro exI [of _ "Suc k"] exI [of _ "waitMs r a # tl"] exI [of _ res]) simp
    qed
  qed
qed

subsection \<open>Decimal digits and \<open>parseInt\<close>\<close>

lemma unat_digit: "d < 10 \<Longrightarrow> unat (of_nat (48 + d) :: 16 word) = 48 + d"
  by (simp add: unat_of_nat del: of_nat_add)

lemma isDigit_digit: "d < 10 \<Longrightarrow> isDigit (of_nat (48 + d))"
  unfolding isDigit_def word_le_nat_alt by (simp add: unat_digit del: of_nat_add)

lemma uint_digit: "d < 10 \<Longrightarrow> uint (of_nat (48 + d) :: 16 word) = 48 + int d"
  using unat_digit [of d] by (simp add: uint_nat del: of_nat_add)

lemma decimal_digits: "\<forall>c \<in> set (decimal n). isDigit c"
  by (induction n rule: decimal.induct)
     (subst decimal.simps, simp add: isDigit_digit del: of_nat_add)

lemma decimal_nonempty: "decimal n \<noteq> []"
  by (subst decimal.simps) simp

lemma digits_value_snoc: "digits_value (ds @ [c]) = digits_value ds * 10 + (uint c - 48)"
  by (simp add: digits_value_def)

lemma digits_value_decimal: "digits_value (decimal n) = int n"
proof (induction n rule: decimal.induct)
  case (1 n)
  show ?case
  proof (cases "n < 10")
    case True
    then show ?thesis
      by (subst decimal.simps) (simp add: digits_value_def uint_digit del: of_nat_add)
  next
    case False
    with 1 have "digits_value (decimal (n div 10)) = int (n div 10)"
      by simp
    then show ?thesis using False
      by (subst decimal.simps)
         (simp add: digits_value_snoc uint_digit zdiv_int zmod_int del: of_nat_add)
  qed
qed

lemma digit_plain: "isDigit c \<Longrightarrow> \<not> isWhiteSpace c \<and> c \<noteq> 0x2D \<and> c \<noteq> 0x2B"
  by (auto simp: isDigit_def isWhiteSpace_def word_le_nat_alt)

text \<open>
  \<open>parseInt\<close> reads a text that begins with decimal digits as the number those digits spell,
  whatever follows them; so it reads the decimal digits of a number back as that number.
\<close>

lemma exact_Num: "abs v \<le> 2 ^ 53 \<Longrightarrow> exact v = Num v"
  by (simp add: exact_def)

lemma digits_value_nonneg: "\<forall>c \<in> set ds. isDigit c \<Longrightarrow> 0 \<le> digits_value ds"
proof (induction ds rule: rev_induct)
  case Nil
  then show ?case by (simp add: digits_value_def)
next
  case (snoc c ds)
  then have "isDigit c" by simp
  then have "48 \<le> uint c"
    by (simp add: isDigit_def word_le_def)
  moreover from snoc have "0 \<le> digits_value ds" by simp
  ultimately show ?case
    unfolding digits_value_snoc by simp
qed

lemma parseInt10_digits:
  assumes "ds \<noteq> []" "\<forall>c \<in> set ds. isDigit c" "rest = [] \<or> \<not> isDigit (hd rest)"
  shows "parseInt10 (ds @ rest) = exact (digits_value ds)"
proof -
  obtain c cs where cs: "ds = c # cs"
    using assms(1) by (cases ds) auto
  with assms(2) have c: "\<not> isWhiteSpace c" "c \<noteq> 0x2D" "c \<noteq> 0x2B"
    using digit_plain [of c] by auto
  have "takeWhile isDigit rest = []"
    using assms(3) by (cases rest) auto
  moreover have "\<And>x. x \<in> set (c # cs) \<Longrightarrow> isDigit x"
    using assms(2) cs by auto
  ultimately have tw: "takeWhile isDigit ((c # cs) @ rest) = c # cs"
    using takeWhile_append2 [of "c # cs" isDigit rest] by simp
  have "parseInt10 ((c # cs) @ rest) = exact (digits_value (c # cs))"
    unfolding parseInt10_def using c tw by (simp add: Let_def)
  then show ?thesis by (simp add: cs)
qed

lemma parseInt10_decimal: "parseInt10 (decimal n) = exact (int n)"
  using parseInt10_digits [of "decimal n" "[]"] decimal_nonempty [of n] decimal_digits [of n]
  by (simp add: digits_value_decimal)

lemma decimal_examples:
  "decimal 2 = js ''2''" "decimal 120 = js ''120''" "decimal 429 = js ''429''"
  by (simp_all add: decimal.simps js_def)

lemma times_1000_exact: "0 \<le> v \<Longrightarrow> v * 1000 \<le> 2 ^ 53 \<Longrightarrow> times_1000 (exact v) = Num (v * 1000)"
  by (simp add: exact_def)

text \<open>Lines 125 and 126 for a header of whole seconds, for none, and for one that is no number.\<close>

lemma waitMs_digits:
  assumes "retryAfter r = Some (ds @ rest)" "ds \<noteq> []" "\<forall>c \<in> set ds. isDigit c"
    "rest = [] \<or> \<not> isDigit (hd rest)" "digits_value ds * 1000 \<le> 2 ^ 53"
  shows "waitMs r a = Num (digits_value ds * 1000)"
  using assms parseInt10_digits [OF assms(2-4)] digits_value_nonneg [OF assms(3)]
  by (simp add: waitMs_def times_1000_exact)

lemma waitMs_seconds:
  "retryAfter r = Some (decimal n) \<Longrightarrow> n * 1000 \<le> 2 ^ 53 \<Longrightarrow> waitMs r a = Num (int n * 1000)"
proof -
  assume r: "retryAfter r = Some (decimal n)" and n: "n * 1000 \<le> 2 ^ 53"
  from n have "int (n * 1000) \<le> int (2 ^ 53)" by (rule zle_int [THEN iffD2])
  then have "int n * 1000 \<le> 2 ^ 53" by simp
  with r show ?thesis
    by (simp add: waitMs_def parseInt10_decimal decimal_nonempty times_1000_exact)
qed

lemma waitMs_exponential:
  assumes "retryAfter r = None \<or> retryAfter r = Some []" "a \<le> MAX_RETRIES"
  shows "waitMs r a = Num (500 * 2 ^ a)"
proof -
  have "(2::int) ^ a \<le> 2 ^ MAX_RETRIES"
    using assms(2) by (intro power_increasing) simp_all
  then have "abs ((2::int) ^ a * 500) \<le> 2 ^ 53"
    by (simp add: MAX_RETRIES_def)
  then have "exact (2 ^ a * 500) = Num (500 * 2 ^ a)"
    by (simp add: exact_Num mult.commute)
  with assms(1) show ?thesis
    by (auto simp add: waitMs_def)
qed

lemma waitMs_not_a_number:
  "retryAfter r = Some (c # cs) \<Longrightarrow> \<not> isWhiteSpace c \<Longrightarrow> c \<noteq> 0x2D \<Longrightarrow> c \<noteq> 0x2B \<Longrightarrow> \<not> isDigit c \<Longrightarrow>
   waitMs r a = NaN"
  by (simp add: waitMs_def parseInt10_def)


subsection \<open>Retries\<close>

lemmas sample_defs =
  sample_session_def sample_world_def sample_env_def sample_opts_def too_many_def
  server_down_def always_def offline_def

text \<open>
  Claim C2. The transport retries on status 429 only. When every response is a 429, exactly
  \<open>MAX_RETRIES + 1 = 5\<close> requests are made and the last 429 response is returned as a
  normal result. A response with another status is returned at once, with no retry, at
  whatever attempt it arrives; a rejected fetch (a network failure) is passed on to the
  caller at once, with no retry.
\<close>

theorem retries_only_on_429:
  "MAX_RETRIES + 1 = 5 \<and>
   ((\<forall>i \<le> MAX_RETRIES. server e (length (fetch_log w) + i) = Resolved (rs i) \<and>
        status (rs i) = 429) \<longrightarrow>
      fetchWithRetry e url opts 0 w =
        (Inr (rs MAX_RETRIES),
         w\<lparr>fetch_log := fetch_log w @ replicate (MAX_RETRIES + 1) (url, attach_headers e opts w),
           timer_log := timer_log w @ map (\<lambda>i. waitMs (rs i) i) [0..<MAX_RETRIES]\<rparr>)) \<and>
   (server e (length (fetch_log w)) = Resolved r \<and> status r \<noteq> 429 \<longrightarrow>
      fetchWithRetry e url opts a w =
        (Inr r, w\<lparr>fetch_log := fetch_log w @ [(url, attach_headers e opts w)]\<rparr>)) \<and>
   (server e (length (fetch_log w)) = Rejected \<longrightarrow>
      fetchWithRetry e url opts a w =
        (Inl FetchFailed, w\<lparr>fetch_log := fetch_log w @ [(url, attach_headers e opts w)]\<rparr>))"
proof (intro conjI impI)
  show "MAX_RETRIES + 1 = 5" by (simp add: MAX_RETRIES_def)
next
  assume all: "\<forall>i \<le> MAX_RETRIES. server e (length (fetch_log w) + i) = Resolved (rs i) \<and>
        status (rs i) = 429"
  then have "\<forall>i<MAX_RETRIES. server e (length (fetch_log w) + i) = Resolved (rs i) \<and>
        status (rs i) = 429"
    by simp
  moreover have "0 + MAX_RETRIES \<le> MAX_RETRIES" by simp
  moreover from all have "server e (length (fetch_log w) + MAX_RETRIES) = Resolved (rs MAX_RETRIES)"
    by simp
  moreover have "0 + MAX_RETRIES = MAX_RETRIES \<or>
      (\<forall>r. Resolved (rs MAX_RETRIES) = Resolved r \<longrightarrow> status r \<noteq> 429)"
    by simp
  ultimately show "fetchWithRetry e url opts 0 w =
        (Inr (rs MAX_RETRIES),
         w\<lparr>fetch_log := fetch_log w @ replicate (MAX_RETRIES + 1) (url, attach_headers e opts w),
           timer_log := timer_log w @ map (\<lambda>i. waitMs (rs i) i) [0..<MAX_RETRIES]\<rparr>)"
    using fetchWithRetry_run [of MAX_RETRIES e w rs 0 "Resolved (rs MAX_RETRIES)" url opts]
    by simp
next
  assume "server e (length (fetch_log w)) = Resolved r \<and> status r \<noteq> 429"
  then show "fetchWithRetry e url opts a w =
        (Inr r, w\<lparr>fetch_log := fetch_log w @ [(url, attach_headers e opts w)]\<rparr>)"
    by (simp add: fetchWithRetry_returns)
next
  assume "server e (length (fetch_log w)) = Rejected"
  then show "fetchWithRetry e url opts a w =
        (Inl FetchFailed, w\<lparr>fetch_log := fetch_log w @ [(url, attach_headers e opts w)]\<rparr>)"
    by (rule fetchWithRetry_rejected)
qed

theorem retries_only_on_429_witness:
  "fst (fetchWithRetry (sample_env (always too_many)) API_CHAT sample_opts 0 sample_world) =
     Inr too_many \<and>
   length (fetch_log (snd (fetchWithRetry (sample_env (always too_many)) API_CHAT sample_opts 0
     sample_world))) = 5 \<and>
   timer_log (snd (fetchWithRetry (sample_env (always too_many)) API_CHAT sample_opts 0
     sample_world)) = [Num 500, Num 1000, Num 2000, Num 4000] \<and>
   fst (fetchWithRetry (sample_env (always server_down)) API_CHAT sample_opts 0 sample_world) =
     Inr server_down \<and>
   length (fetch_log (snd (fetchWithRetry (sample_env (always server_down)) API_CHAT sample_opts 0
     sample_world))) = 1 \<and>
   fst (fetchWithRetry (sample_env offline) API_CHAT sample_opts 0 sample_world) =
     Inl FetchFailed \<and>
   length (fetch_log (snd (fetchWithRetry (sample_env offline) API_CHAT sample_opts 0
     sample_world))) = 1"
proof -
  let ?E1 = "sample_env (always too_many)"
  let ?E2 = "sample_env (always server_down)"
  let ?E3 = "sample_env offline"
  have h1: "\<forall>i \<le> MAX_RETRIES. server ?E1 (length (fetch_log sample_world) + i) =
      Resolved too_many \<and> status too_many = 429"
    by (simp add: sample_defs)
  have h2: "server ?E2 (length (fetch_log sample_world)) = Resolved server_down \<and>
      status server_down \<noteq> 429"
    by (simp add: sample_defs)
  have h3: "server ?E3 (length (fetch_log sample_world)) = Rejected"
    by (simp add: sample_defs)
  have r1: "fetchWithRetry ?E1 API_CHAT sample_opts 0 sample_world =
      (Inr too_many,
       sample_world\<lparr>fetch_log := fetch_log sample_world @
           replicate (MAX_RETRIES + 1) (API_CHAT, attach_headers ?E1 sample_opts sample_world),
         timer_log := timer_log sample_world @
           map (\<lambda>i. waitMs too_many i) [0..<MAX_RETRIES]\<rparr>)"
    using retries_only_on_429 [of ?E1 sample_world "\<lambda>i. too_many" API_CHAT sample_opts
        server_down 0] h1
    by blast
  have r2: "fetchWithRetry ?E2 API_CHAT sample_opts 0 sample_world =
      (Inr server_down,
       sample_world\<lparr>fetch_log := fetch_log sample_world @
           [(API_CHAT, attach_headers ?E2 sample_opts sample_world)]\<rparr>)"
    using retries_only_on_429 [of ?E2 sample_world "\<lambda>i. too_many" API_CHAT sample_opts
        server_down 0] h2
    by blast
  have r3: "fetchWithRetry ?E3 API_CHAT sample_opts 0 sample_world =
      (Inl FetchFailed,
       sample_world\<lparr>fetch_log := fetch_log sample_world @
           [(API_CHAT, attach_headers ?E3 sample_opts sample_world)]\<rparr>)"
    using retries_only_on_429 [of ?E3 sample_world "\<lambda>i. too_many" API_CHAT sample_opts
        server_down 0] h3
    by blast
  have waits: "map (\<lambda>i. waitMs too_many i) [0..<MAX_RETRIES] =
      [Num 500, Num 1000, Num 2000, Num 4000]"
    by (simp add: MAX_RETRIES_def waitMs_def exact_def too_many_def eval_nat_numeral)
  show ?thesis
    unfolding r1 r2 r3 waits by (simp add: sample_world_def MAX_RETRIES_def)
qed

subsection \<open>Waits\<close>

text \<open>The wait before the retry of a rate-limited attempt is the first one the call logs.\<close>

lemma first_wait:
  assumes "a < MAX_RETRIES" "server e (length (fetch_log w)) = Resolved r" "status r = 429"
  shows "\<exists>tl. timer_log (snd (fetchWithRetry e url opts a w)) = timer_log w @ waitMs r a # tl"
proof -
  let ?w = "setTimeout (waitMs r a)
      (w\<lparr>fetch_log := fetch_log w @ [(url, attach_headers e opts w)]\<rparr>)"
  obtain k tl res where
    "fetchWithRetry e url (attach_headers e opts w) (a + 1) ?w =
       (res, ?w\<lparr>fetch_log := fetch_log ?w @
                  replicate k (url, attach_headers e (attach_headers e opts w) ?w),
                timer_log := timer_log ?w @ tl\<rparr>)"
    using fetchWithRetry_frame [of "a + 1" e url "attach_headers e opts w" ?w] by blast
  then have "timer_log (snd (fetchWithRetry e url opts a w)) = timer_log w @ waitMs r a # tl"
    unfolding fetchWithRetry_retries [OF assms(2,3,1)] by (simp add: setTimeout_def)
  then show ?thesis ..
qed

text \<open>
  Claim C5, as stated, fails on a Retry-After header that is not in whole seconds. With the
  HTTP date \<open>Wed, 21 Oct 2015 07:28:00 GMT\<close> in every 429 response, the header is not
  empty, line 126 multiplies what \<open>parseInt\<close> makes of it, NaN, by 1000, and the four waits
  of the exhausted submission are NaN, not 500, 1000, 2000 and 4000 ms.
\<close>

theorem http_date_not_exponential:
  "status dated = 429 \<and>
   retryAfter dated = Some (js ''Wed, 21 Oct 2015 07:28:00 GMT'') \<and>
   timer_log (snd (fetchWithRetry (sample_env (always dated)) API_CHAT sample_opts 0
     sample_world)) = [NaN, NaN, NaN, NaN]"
proof -
  let ?E = "sample_env (always dated)"
  have nan: "waitMs dated i = NaN" for i
    by (simp add: waitMs_def parseInt10_def dated_def js_def isWhiteSpace_def isDigit_def)
  have "\<forall>i<MAX_RETRIES. server ?E (length (fetch_log sample_world) + i) = Resolved dated \<and>
      status dated = 429"
    by (simp add: sample_env_def always_def dated_def)
  moreover have "0 + MAX_RETRIES \<le> MAX_RETRIES" by simp
  moreover have "server ?E (length (fetch_log sample_world) + MAX_RETRIES) = Resolved dated"
    by (simp add: sample_env_def always_def)
  moreover have "0 + MAX_RETRIES = MAX_RETRIES \<or>
      (\<forall>r. Resolved dated = Resolved r \<longrightarrow> status r \<noteq> 429)"
    by simp
  ultimately have "timer_log (snd (fetchWithRetry ?E API_CHAT sample_opts 0 sample_world)) =
      timer_log sample_world @ map (\<lambda>i. waitMs dated i) [0..<MAX_RETRIES]"
    using fetchWithRetry_run [of MAX_RETRIES ?E sample_world "\<lambda>i. dated" 0 "Resolved dated"
        API_CHAT sample_opts]
    by simp
  then have "timer_log (snd (fetchWithRetry ?E API_CHAT sample_opts 0 sample_world)) =
      [NaN, NaN, NaN, NaN]"
    by (simp add: nan MAX_RETRIES_def sample_world_def eval_nat_numeral)
  moreover have "status dated = 429 \<and>
      retryAfter dated = Some (js ''Wed, 21 Oct 2015 07:28:00 GMT'')"
    by (simp add: dated_def)
  ultimately show ?thesis by simp
qed

text \<open>
  Claim C5, amended. Before the retry that follows a 429: when the response carries a
  Retry-After header that begins with decimal digits, the delay handed to \<open>setTimeout\<close> is
  exactly as many seconds as the digits spell, whatever follows them and whatever the
  attempt (the digits of \<open>n\<close> give \<open>1000 * n\<close> ms, Retry-After: 2 gives 2000 ms, 05 gives
  5000 ms, 1.5 gives 1000 ms); when the header begins with a character that is no digit,
  sign or white space, as an HTTP date does, the delay is NaN, with no fallback to the
  exponential schedule; when the header is absent or empty the delay is
  \<open>500 * 2 ^ attempt\<close> ms, the attempt counted from 0; a submission whose retries are
  exhausted without the header waits 500, 1000, 2000, 4000 ms. The seconds are taken in
  the range in which the product is an exact double.
\<close>

theorem backoff_waits:
  "(a < MAX_RETRIES \<and> server e (length (fetch_log w)) = Resolved r \<and> status r = 429 \<and>
      retryAfter r = Some (decimal n) \<and> n * 1000 < 2 ^ 53 \<longrightarrow>
      (\<exists>tl. timer_log (snd (fetchWithRetry e url opts a w)) =
         timer_log w @ Num (int n * 1000) # tl)) \<and>
   (a < MAX_RETRIES \<and> server e (length (fetch_log w)) = Resolved r \<and> status r = 429 \<and>
      retryAfter r = Some (ds @ rest) \<and> ds \<noteq> [] \<and> (\<forall>c \<in> set ds. isDigit c) \<and>
      (rest = [] \<or> \<not> isDigit (hd rest)) \<and> digits_value ds * 1000 < 2 ^ 53 \<longrightarrow>
      (\<exists>tl. timer_log (snd (fetchWithRetry e url opts a w)) =
         timer_log w @ Num (digits_value ds * 1000) # tl)) \<and>
   (a < MAX_RETRIES \<and> server e (length (fetch_log w)) = Resolved r \<and> status r = 429 \<and>
      retryAfter r = Some (c # cs) \<and> \<not> isWhiteSpace c \<and> c \<noteq> 0x2D \<and> c \<noteq> 0x2B \<and>
      \<not> isDigit c \<longrightarrow>
      (\<exists>tl. timer_log (snd (fetchWithRetry e url opts a w)) =
         timer_log w @ NaN # tl)) \<and>
   (a < MAX_RETRIES \<and> server e (length (fetch_log w)) = Resolved r \<and> status r = 429 \<and>
      (retryAfter r = None \<or> retryAfter r = Some []) \<longrightarrow>
      (\<exists>tl. timer_log (snd (fetchWithRetry e url opts a w)) =
         timer_log w @ Num (500 * 2 ^ a) # tl)) \<and>
   ((\<forall>i \<le> MAX_RETRIES. server e (length (fetch_log w) + i) = Resolved (rs i) \<and>
        status (rs i) = 429 \<and> retryAfter (rs i) = None) \<longrightarrow>
      timer_log (snd (fetchWithRetry e url opts 0 w)) =
        timer_log w @ [Num 500, Num 1000, Num 2000, Num 4000])"
proof (intro conjI impI)
  assume h: "a < MAX_RETRIES \<and> server e (length (fetch_log w)) = Resolved r \<and> status r = 429 \<and>
      retryAfter r = Some (decimal n) \<and> n * 1000 < 2 ^ 53"
  then have "waitMs r a = Num (int n * 1000)"
    by (simp add: waitMs_seconds)
  with h first_wait [of a e w r url opts]
  show "\<exists>tl. timer_log (snd (fetchWithRetry e url opts a w)) =
         timer_log w @ Num (int n * 1000) # tl"
    by simp
next
  assume h: "a < MAX_RETRIES \<and> server e (length (fetch_log w)) = Resolved r \<and> status r = 429 \<and>
      retryAfter r = Some (ds @ rest) \<and> ds \<noteq> [] \<and> (\<forall>c \<in> set ds. isDigit c) \<and>
      (rest = [] \<or> \<not> isDigit (hd rest)) \<and> digits_value ds * 1000 < 2 ^ 53"
  then have "waitMs r a = Num (digits_value ds * 1000)"
    by (simp add: waitMs_digits)
  with h first_wait [of a e w r url opts]
  show "\<exists>tl. timer_log (snd (fetchWithRetry e url opts a w)) =
         timer_log w @ Num (digits_value ds * 1000) # tl"
    by simp
next
  assume h: "a < MAX_RETRIES \<and> server e (length (fetch_log w)) = Resolved r \<and> status r = 429 \<and>
      retryAfter r = Some (c # cs) \<and> \<not> isWhiteSpace c \<and> c \<noteq> 0x2D \<and> c \<noteq> 0x2B \<and>
      \<not> isDigit c"
  then have "waitMs r a = NaN"
    by (simp add: waitMs_not_a_number)
  with h first_wait [of a e w r url opts]
  show "\<exists>tl. timer_log (snd (fetchWithRetry e url opts a w)) =
         timer_log w @ NaN # tl"
    by simp
next
  assume h: "a < MAX_RETRIES \<and> server e (length (fetch_log w)) = Resolved r \<and> status r = 429 \<and>
      (retryAfter r = None \<or> retryAfter r = Some [])"
  then have "waitMs r a = Num (500 * 2 ^ a)"
    by (simp add: waitMs_exponential)
  with h first_wait [of a e w r url opts]
  show "\<exists>tl. timer_log (snd (fetchWithRetry e url opts a w)) =
         timer_log w @ Num (500 * 2 ^ a) # tl"
    by simp
next
  assume all: "\<forall>i \<le> MAX_RETRIES. server e (length (fetch_log w) + i) = Resolved (rs i) \<and>
        status (rs i) = 429 \<and> retryAfter (rs i) = None"
  then have "\<forall>i<MAX_RETRIES. server e (length (fetch_log w) + i) = Resolved (rs i) \<and>
        status (rs i) = 429"
    by simp
  moreover have "0 + MAX_RETRIES \<le> MAX_RETRIES" by simp
  moreover from all
  have "server e (length (fetch_log w) + MAX_RETRIES) = Resolved (rs MAX_RETRIES)"
    by simp
  moreover have "0 + MAX_RETRIES = MAX_RETRIES \<or>
      (\<forall>r. Resolved (rs MAX_RETRIES) = Resolved r \<longrightarrow> status r \<noteq> 429)"
    by simp
  ultimately have "timer_log (snd (fetchWithRetry e url opts 0 w)) =
      timer_log w @ map (\<lambda>i. waitMs (rs i) i) [0..<MAX_RETRIES]"
    using fetchWithRetry_run [of MAX_RETRIES e w rs 0 "Resolved (rs MAX_RETRIES)" url opts]
    by simp
  moreover from all have "map (\<lambda>i. waitMs (rs i) i) [0..<MAX_RETRIES] =
      [Num 500, Num 1000, Num 2000, Num 4000]"
    by (simp add: MAX_RETRIES_def waitMs_def exact_def eval_nat_numeral)
  ultimately show "timer_log (snd (fetchWithRetry e url opts 0 w)) =
        timer_log w @ [Num 500, Num 1000, Num 2000, Num 4000]"
    by simp
qed

theorem backoff_waits_witness:
  "hd (timer_log (snd (fetchWithRetry
      (sample_env (always (too_many\<lparr>retryAfter := Some (js ''2'')\<rparr>)))
      API_CHAT sample_opts 0 sample_world))) = Num 2000 \<and>
   hd (timer_log (snd (fetchWithRetry
      (sample_env (always (too_many\<lparr>retryAfter := Some (js ''05'')\<rparr>)))
      API_CHAT sample_opts 0 sample_world))) = Num 5000 \<and>
   hd (timer_log (snd (fetchWithRetry
      (sample_env (always (too_many\<lparr>retryAfter := Some (js ''1.5'')\<rparr>)))
      API_CHAT sample_opts 2 sample_world))) = Num 1000 \<and>
   hd (timer_log (snd (fetchWithRetry (sample_env (always dated))
      API_CHAT sample_opts 0 sample_world))) = NaN \<and>
   hd (timer_log (snd (fetchWithRetry (sample_env (always too_many))
      API_CHAT sample_opts 1 sample_world))) = Num 1000 \<and>
   timer_log (snd (fetchWithRetry (sample_env (always too_many))
      API_CHAT sample_opts 0 sample_world)) = [Num 500, Num 1000, Num 2000, Num 4000]"
proof -
  let ?r1 = "too_many\<lparr>retryAfter := Some (js ''2'')\<rparr>"
  let ?r2 = "too_many\<lparr>retryAfter := Some (js ''05'')\<rparr>"
  let ?r3 = "too_many\<lparr>retryAfter := Some (js ''1.5'')\<rparr>"
  have srv: "server (sample_env (always r)) n = Resolved r" for r n
    by (simp add: sample_env_def always_def)
  have h1: "0 < MAX_RETRIES \<and> server (sample_env (always ?r1)) (length (fetch_log sample_world)) =
      Resolved ?r1 \<and> status ?r1 = 429 \<and> retryAfter ?r1 = Some (decimal 2) \<and>
      (2::nat) * 1000 < 2 ^ 53"
    by (simp add: srv too_many_def MAX_RETRIES_def decimal_examples)
  have h2: "0 < MAX_RETRIES \<and> server (sample_env (always ?r2)) (length (fetch_log sample_world)) =
      Resolved ?r2 \<and> status ?r2 = 429 \<and> retryAfter ?r2 = Some (js ''05'' @ []) \<and> js ''05'' \<noteq> [] \<and>
      (\<forall>c \<in> set (js ''05''). isDigit c) \<and> ([] = [] \<or> \<not> isDigit (hd [])) \<and>
      digits_value (js ''05'') * 1000 < 2 ^ 53"
    by (simp add: srv too_many_def MAX_RETRIES_def js_def isDigit_def digits_value_def)
  have h3: "2 < MAX_RETRIES \<and> server (sample_env (always ?r3)) (length (fetch_log sample_world)) =
      Resolved ?r3 \<and> status ?r3 = 429 \<and> retryAfter ?r3 = Some (js ''1'' @ js ''.5'') \<and>
      js ''1'' \<noteq> [] \<and> (\<forall>c \<in> set (js ''1''). isDigit c) \<and>
      (js ''.5'' = [] \<or> \<not> isDigit (hd (js ''.5''))) \<and> digits_value (js ''1'') * 1000 < 2 ^ 53"
    by (simp add: srv too_many_def MAX_RETRIES_def js_def isDigit_def digits_value_def)
  have h4: "0 < MAX_RETRIES \<and> server (sample_env (always dated)) (length (fetch_log sample_world)) =
      Resolved dated \<and> status dated = 429 \<and>
      retryAfter dated = Some (0x57 # js ''ed, 21 Oct 2015 07:28:00 GMT'') \<and>
      \<not> isWhiteSpace 0x57 \<and> (0x57 :: 16 word) \<noteq> 0x2D \<and> (0x57 :: 16 word) \<noteq> 0x2B \<and>
      \<not> isDigit 0x57"
    by (simp add: srv dated_def MAX_RETRIES_def js_def isDigit_def isWhiteSpace_def)
  have h5: "1 < MAX_RETRIES \<and> server (sample_env (always too_many)) (length (fetch_log sample_world)) =
      Resolved too_many \<and> status too_many = 429 \<and>
      (retryAfter too_many = None \<or> retryAfter too_many = Some [])"
    by (simp add: srv too_many_def MAX_RETRIES_def)
  have h6: "\<forall>i \<le> MAX_RETRIES. server (sample_env (always too_many))
      (length (fetch_log sample_world) + i) = Resolved too_many \<and> status too_many = 429 \<and>
      retryAfter too_many = None"
    by (simp add: srv too_many_def)
  note c1 = backoff_waits [where rs = "\<lambda>i. too_many" and url = API_CHAT and
      opts = sample_opts, THEN conjunct1, THEN mp, OF h1]
  note c2 = backoff_waits [where rs = "\<lambda>i. too_many" and url = API_CHAT and
      opts = sample_opts, THEN conjunct2, THEN conjunct1, THEN mp, OF h2]
  note c3 = backoff_waits [where rs = "\<lambda>i. too_many" and url = API_CHAT and
      opts = sample_opts, THEN conjunct2, THEN conjunct1, THEN mp, OF h3]
  note c4 = backoff_waits [where rs = "\<lambda>i. too_many" and url = API_CHAT and
      opts = sample_opts, THEN conjunct2, THEN conjunct2, THEN conjunct1, THEN mp, OF h4]
  note c5 = backoff_waits [where rs = "\<lambda>i. too_many" and url = API_CHAT and
      opts = sample_opts, THEN conjunct2, THEN conjunct2, THEN conjunct2, THEN conjunct1, THEN mp, OF h5]
  note c6 = backoff_waits [where rs = "\<lambda>i. too_many" and url = API_CHAT and
      opts = sample_opts, THEN conjunct2, THEN conjunct2, THEN conjunct2, THEN conjunct2, THEN mp, OF h6]
  have tl: "timer_log sample_world = []"
    by (simp add: sample_world_def)
  have dv: "digits_value (js ''05'') = 5" "digits_value (js ''1'') = 1"
    by (simp_all add: js_def digits_value_def)
  from c1 have g1: "hd (timer_log (snd (fetchWithRetry (sample_env (always ?r1))
      API_CHAT sample_opts 0 sample_world))) = Num 2000"
    unfolding tl by auto
  from c2 have g2: "hd (timer_log (snd (fetchWithRetry (sample_env (always ?r2))
      API_CHAT sample_opts 0 sample_world))) = Num 5000"
    unfolding tl dv by auto
  from c3 have g3: "hd (timer_log (snd (fetchWithRetry (sample_env (always ?r3))
      API_CHAT sample_opts 2 sample_world))) = Num 1000"
    unfolding tl dv by auto
  from c4 have g4: "hd (timer_log (snd (fetchWithRetry (sample_env (always dated))
      API_CHAT sample_opts 0 sample_world))) = NaN"
    unfolding tl by auto
  from c5 have g5: "hd (timer_log (snd (fetchWithRetry (sample_env (always too_many))
      API_CHAT sample_opts 1 sample_world))) = Num 1000"
    unfolding tl by auto
  from c6 have g6: "timer_log (snd (fetchWithRetry (sample_env (always too_many))
      API_CHAT sample_opts 0 sample_world)) = [Num 500, Num 1000, Num 2000, Num 4000]"
    unfolding tl by simp
  from g1 g2 g3 g4 g5 g6 show ?thesis
    by (intro conjI)
qed

section \<open>The submission controller: one submission from call to end\<close>

lemma compose_session: "session w' = session w \<Longrightarrow> compose e m f i w' = compose e m f i w"
  by (simp add: compose_def split: option.split)

lemma attach_headers_session:
  "session w' = session w \<Longrightarrow> attach_headers e opts w' = attach_headers e opts w"
  by (simp add: attach_headers_def)

text \<open>A submission that is sent, in terms of what \<open>fetchWithRetry\<close> returns.\<close>

lemma send_started:
  assumes "\<not> inFlight w" "m \<noteq> [] \<or> f \<noteq> None"
  shows "sendMessageToServer e m f i w =
     release (case fetchWithRetry e API_CHAT (compose e m f i w) 0
                     (appendMessage User (own_text m f) (w\<lparr>inFlight := True\<rparr>)) of
                (Inr resp, w3) \<Rightarrow> try_response resp w3
              | (Inl err, w3) \<Rightarrow> handle_error err w3)"
proof -
  have "compose e m f i (appendMessage User (own_text m f) (w\<lparr>inFlight := True\<rparr>)) =
      compose e m f i w"
    by (rule compose_session) (simp add: appendMessage_def)
  with assms show ?thesis
    by (auto simp add: sendMessageToServer_def Let_def release_def)
qed

lemma send_run:
  assumes "\<not> inFlight w" "m \<noteq> [] \<or> f \<noteq> None"
    and "\<forall>j<k. server e (length (fetch_log w) + j) = Resolved (rs j) \<and> status (rs j) = 429"
    and "k \<le> MAX_RETRIES"
    and "server e (length (fetch_log w) + k) = out"
    and "k = MAX_RETRIES \<or> (\<forall>r. out = Resolved r \<longrightarrow> status r \<noteq> 429)"
  shows "sendMessageToServer e m f i w =
     release (case out of
                Resolved resp \<Rightarrow> try_response resp (sent e m f i w k rs)
              | Rejected \<Rightarrow> handle_error FetchFailed (sent e m f i w k rs))"
proof -
  let ?w = "appendMessage User (own_text m f) (w\<lparr>inFlight := True\<rparr>)"
  have fl: "fetch_log ?w = fetch_log w" by (simp add: appendMessage_def)
  have ah: "attach_headers e (compose e m f i w) ?w = attach_headers e (compose e m f i w) w"
    by (rule attach_headers_session) (simp add: appendMessage_def)
  have "fetchWithRetry e API_CHAT (compose e m f i w) 0 ?w =
     ((case out of Rejected \<Rightarrow> Inl FetchFailed | Resolved r \<Rightarrow> Inr r),
      ?w\<lparr>fetch_log := fetch_log ?w @ replicate (Suc k) (API_CHAT, attach_headers e (compose e m f i w) ?w),
        timer_log := timer_log ?w @ map (\<lambda>j. waitMs (rs j) (0 + j)) [0..<k]\<rparr>)"
    using assms(3-6) by (intro fetchWithRetry_run) (simp_all add: fl)
  also have "?w\<lparr>fetch_log := fetch_log ?w @ replicate (Suc k) (API_CHAT, attach_headers e (compose e m f i w) ?w),
        timer_log := timer_log ?w @ map (\<lambda>j. waitMs (rs j) (0 + j)) [0..<k]\<rparr> = sent e m f i w k rs"
    unfolding ah by (simp add: sent_def appendMessage_def)
  finally show ?thesis
    unfolding send_started [OF assms(1,2)] by (simp split: outcome.split)
qed

subsection \<open>Rendering the response\<close>

lemma getToken_server: "getToken (e\<lparr>server := srv\<rparr>) = getToken e"
  by (simp add: getToken_def split: option.split)

lemma attach_headers_server:
  "attach_headers (e\<lparr>server := srv\<rparr>) opts w = attach_headers e opts w"
  by (simp add: attach_headers_def getToken_server)

lemma compose_server: "compose (e\<lparr>server := srv\<rparr>) m f i w = compose e m f i w"
  by (simp add: compose_def language_def split: option.split)

lemma sent_server: "sent (e\<lparr>server := srv\<rparr>) m f i w k rs = sent e m f i w k rs"
  by (simp add: sent_def attach_headers_server compose_server)

lemma try_response_unparsed:
  "json resp = None \<Longrightarrow>
   try_response (resp\<lparr>json := Some (JsonObject empty_object)\<rparr>) w = try_response resp w"
  by (simp add: try_response_def handle_response_def render_response_def ok_def errText_def)

lemmas sample_defs2 =
  sample_defs sample_file_def adopting_def garbled_def refused_def bare_500_def null_body_def
  dated_def

lemmas handle_defs =
  try_response_def handle_response_def render_response_def handle_error_def sent_def
  appendMessage_def release_def errText_def empty_object_def Let_def

text \<open>
  Claim C7, as stated, fails on a body that parses to \<open>null\<close>. With status 200 and the
  body \<open>null\<close>, \<open>resp.json()\<close> resolves, reading \<open>data.reply\<close> throws a TypeError inside the
  try block, and the catch block logs it and shows the network error: neither the reply
  text nor the placeholder is rendered.
\<close>

theorem null_body_network_error:
  "ok null_body \<and> json null_body = Some JsonNull \<and>
   messagesEl (sendMessageToServer (sample_env (always null_body)) (js ''hi'') None None
      sample_world) =
     [(Bot, js ''Hello! How can I help you today?''), (User, js ''hi''),
      (Bot, js ''Network error '' @ [0x2014] @ js '' please try again.'')] \<and>
   console_log (sendMessageToServer (sample_env (always null_body)) (js ''hi'') None None
      sample_world) = [TypeError]"
proof -
  let ?E = "sample_env (always null_body)"
  have "sendMessageToServer ?E (js ''hi'') None None sample_world =
      release (try_response null_body (sent ?E (js ''hi'') None None sample_world 0 (\<lambda>j. too_many)))"
    using send_run [where w = sample_world and m = "js ''hi''" and f = None and k = 0
        and e = ?E and rs = "\<lambda>j. too_many" and out = "Resolved null_body" and i = None]
    by (simp add: sample_defs2 js_def)
  then show ?thesis
    by (simp add: handle_defs sample_defs2 ok_def own_text_def network_error_def js_def)
qed

text \<open>
  Claim C7, amended. For the response the submission ends with (after the retried 429
  responses, if any): a body that fails to parse is handled exactly as the empty object
  \<open>{}\<close> is, and no error is logged for it; a body that parses to \<open>null\<close> is not: whatever
  the status, the TypeError of reading its members is logged and the network error is
  shown; for a body that parses to an object (or to another value than \<open>null\<close>, which has
  none of the members), on a success status the message shown is the reply text, or the
  placeholder "No reply from server" when there is none (no \<open>reply\<close> member, or an empty
  one), and on another status it is "Error: " followed by the server's \<open>error\<close> member, else
  by the status text, else by "HTTP " and the status code (each "else" when the one before
  is missing or empty).
\<close>

theorem response_rendering:
  assumes "\<not> inFlight w" and "m \<noteq> [] \<or> f \<noteq> None"
    and "\<forall>j<k. server e (length (fetch_log w) + j) = Resolved (rs j) \<and> status (rs j) = 429"
    and "k \<le> MAX_RETRIES"
    and "server e (length (fetch_log w) + k) = Resolved resp"
    and "k = MAX_RETRIES \<or> status resp \<noteq> 429"
  shows
    "(json resp = None \<longrightarrow>
        sendMessageToServer e m f i w =
        sendMessageToServer
          (e\<lparr>server := (server e)(length (fetch_log w) + k :=
               Resolved (resp\<lparr>json := Some (JsonObject empty_object)\<rparr>))\<rparr>) m f i w) \<and>
     (json resp \<noteq> Some JsonNull \<longrightarrow>
        console_log (sendMessageToServer e m f i w) = console_log w) \<and>
     (json resp = Some JsonNull \<longrightarrow>
        messagesEl (sendMessageToServer e m f i w) =
          messagesEl w @
            [(User, own_text m f),
             (Bot, js ''Network error '' @ [0x2014] @ js '' please try again.'')] \<and>
        console_log (sendMessageToServer e m f i w) = console_log w @ [TypeError]) \<and>
     (ok resp \<and> json resp = Some (JsonObject d) \<and> data_reply d = Some t \<and> t \<noteq> [] \<longrightarrow>
        messagesEl (sendMessageToServer e m f i w) =
          messagesEl w @ [(User, own_text m f), (Bot, t)]) \<and>
     (ok resp \<and> (json resp = None \<or> json resp = Some JsonOther \<or>
          json resp = Some (JsonObject d) \<and> (data_reply d = None \<or> data_reply d = Some [])) \<longrightarrow>
        messagesEl (sendMessageToServer e m f i w) =
          messagesEl w @ [(User, own_text m f), (Bot, js ''No reply from server'')]) \<and>
     (\<not> ok resp \<and> json resp = Some (JsonObject d) \<and> data_error d = Some t \<and> t \<noteq> [] \<longrightarrow>
        messagesEl (sendMessageToServer e m f i w) =
          messagesEl w @ [(User, own_text m f), (Bot, js ''Error: '' @ t)]) \<and>
     (\<not> ok resp \<and> (json resp = None \<or> json resp = Some JsonOther \<or>
          json resp = Some (JsonObject d) \<and> (data_error d = None \<or> data_error d = Some [])) \<and>
        statusText resp \<noteq> [] \<longrightarrow>
        messagesEl (sendMessageToServer e m f i w) =
          messagesEl w @ [(User, own_text m f), (Bot, js ''Error: '' @ statusText resp)]) \<and>
     (\<not> ok resp \<and> (json resp = None \<or> json resp = Some JsonOther \<or>
          json resp = Some (JsonObject d) \<and> (data_error d = None \<or> data_error d = Some [])) \<and>
        statusText resp = [] \<longrightarrow>
        messagesEl (sendMessageToServer e m f i w) =
          messagesEl w @ [(User, own_text m f), (Bot, js ''Error: '' @ js ''HTTP '' @ decimal (status resp))])"
proof -
  have "k = MAX_RETRIES \<or> (\<forall>r. Resolved resp = Resolved r \<longrightarrow> status r \<noteq> 429)"
    using assms(6) by auto
  with assms(1-5)
  have run: "sendMessageToServer e m f i w = release (try_response resp (sent e m f i w k rs))"
    using send_run [of w m f k e rs "Resolved resp" i] by simp
  have unparsed: "sendMessageToServer e m f i w =
        sendMessageToServer
          (e\<lparr>server := (server e)(length (fetch_log w) + k :=
               Resolved (resp\<lparr>json := Some (JsonObject empty_object)\<rparr>))\<rparr>) m f i w"
    if none: "json resp = None"
  proof -
    let ?r = "resp\<lparr>json := Some (JsonObject empty_object)\<rparr>"
    let ?e = "e\<lparr>server := (server e)(length (fetch_log w) + k := Resolved ?r)\<rparr>"
    have "\<forall>j<k. server ?e (length (fetch_log w) + j) = Resolved (rs j) \<and> status (rs j) = 429"
      using assms(3) by simp
    moreover have "server ?e (length (fetch_log w) + k) = Resolved ?r" by simp
    moreover have "k = MAX_RETRIES \<or> (\<forall>r. Resolved ?r = Resolved r \<longrightarrow> status r \<noteq> 429)"
      using assms(6) by auto
    ultimately have "sendMessageToServer ?e m f i w =
        release (try_response ?r (sent ?e m f i w k rs))"
      using send_run [of w m f k ?e rs "Resolved ?r" i] assms(1,2,4) by simp
    then show ?thesis
      unfolding run by (simp add: sent_server try_response_unparsed [OF none])
  qed
  show ?thesis
  proof (intro conjI impI)
    assume "json resp = None"
    then show "sendMessageToServer e m f i w =
        sendMessageToServer
          (e\<lparr>server := (server e)(length (fetch_log w) + k :=
               Resolved (resp\<lparr>json := Some (JsonObject empty_object)\<rparr>))\<rparr>) m f i w"
      by (rule unparsed)
  next
    assume "json resp \<noteq> Some JsonNull"
    then show "console_log (sendMessageToServer e m f i w) = console_log w"
      unfolding run by (auto simp add: handle_defs split: option.split parsed.split)
  next
    assume h: "json resp = Some JsonNull"
    then show "messagesEl (sendMessageToServer e m f i w) =
          messagesEl w @
            [(User, own_text m f),
             (Bot, js ''Network error '' @ [0x2014] @ js '' please try again.'')]"
      unfolding run by (simp add: handle_defs network_error_def)
    from h show "console_log (sendMessageToServer e m f i w) = console_log w @ [TypeError]"
      unfolding run by (simp add: handle_defs network_error_def)
  next
    assume "ok resp \<and> json resp = Some (JsonObject d) \<and> data_reply d = Some t \<and> t \<noteq> []"
    then show "messagesEl (sendMessageToServer e m f i w) =
          messagesEl w @ [(User, own_text m f), (Bot, t)]"
      unfolding run by (simp add: handle_defs split: option.split)
  next
    assume "ok resp \<and> (json resp = None \<or> json resp = Some JsonOther \<or>
          json resp = Some (JsonObject d) \<and> (data_reply d = None \<or> data_reply d = Some []))"
    then show "messagesEl (sendMessageToServer e m f i w) =
          messagesEl w @ [(User, own_text m f), (Bot, js ''No reply from server'')]"
      unfolding run by (auto simp add: handle_defs no_reply_def split: option.split)
  next
    assume "\<not> ok resp \<and> json resp = Some (JsonObject d) \<and> data_error d = Some t \<and> t \<noteq> []"
    then show "messagesEl (sendMessageToServer e m f i w) =
          messagesEl w @ [(User, own_text m f), (Bot, js ''Error: '' @ t)]"
      unfolding run by (simp add: handle_defs)
  next
    assume "\<not> ok resp \<and> (json resp = None \<or> json resp = Some JsonOther \<or>
          json resp = Some (JsonObject d) \<and> (data_error d = None \<or> data_error d = Some [])) \<and>
        statusText resp \<noteq> []"
    then show "messagesEl (sendMessageToServer e m f i w) =
          messagesEl w @ [(User, own_text m f), (Bot, js ''Error: '' @ statusText resp)]"
      unfolding run by (auto simp add: handle_defs)
  next
    assume "\<not> ok resp \<and> (json resp = None \<or> json resp = Some JsonOther \<or>
          json resp = Some (JsonObject d) \<and> (data_error d = None \<or> data_error d = Some [])) \<and>
        statusText resp = []"
    then show "messagesEl (sendMessageToServer e m f i w) =
          messagesEl w @ [(User, own_text m f), (Bot, js ''Error: '' @ js ''HTTP '' @ decimal (status resp))]"
      unfolding run by (auto simp add: handle_defs)
  qed
qed

theorem response_rendering_witness:
  "messagesEl (sendMessageToServer (sample_env (always adopting)) (js ''hi'') None None
      sample_world) =
     [(Bot, js ''Hello! How can I help you today?''), (User, js ''hi''), (Bot, js ''Hi there'')] \<and>
   messagesEl (sendMessageToServer (sample_env (always garbled)) (js ''hi'') None None
      sample_world) =
     [(Bot, js ''Hello! How can I help you today?''), (User, js ''hi''),
      (Bot, js ''No reply from server'')] \<and>
   console_log (sendMessageToServer (sample_env (always garbled)) (js ''hi'') None None
      sample_world) = [] \<and>
   messagesEl (sendMessageToServer (sample_env (always refused)) (js ''hi'') None None
      sample_world) =
     [(Bot, js ''Hello! How can I help you today?''), (User, js ''hi''),
      (Bot, js ''Error: message too long'')] \<and>
   messagesEl (sendMessageToServer (sample_env (always server_down)) (js ''hi'') None None
      sample_world) =
     [(Bot, js ''Hello! How can I help you today?''), (User, js ''hi''),
      (Bot, js ''Error: Service Unavailable'')] \<and>
   messagesEl (sendMessageToServer (sample_env (always bare_500)) (js ''hi'') None None
      sample_world) =
     [(Bot, js ''Hello! How can I help you today?''), (User, js ''hi''),
      (Bot, js ''Error: HTTP 500'')] \<and>
   messagesEl (sendMessageToServer (sample_env (always too_many)) (js ''hi'') None None
      sample_world) =
     [(Bot, js ''Hello! How can I help you today?''), (User, js ''hi''),
      (Bot, js ''Error: Too Many Requests'')] \<and>
   messagesEl (sendMessageToServer (sample_env (always null_body)) (js ''hi'') None None
      sample_world) =
     [(Bot, js ''Hello! How can I help you today?''), (User, js ''hi''),
      (Bot, js ''Network error '' @ [0x2014] @ js '' please try again.'')] \<and>
   sendMessageToServer (sample_env (always garbled)) (js ''hi'') None None sample_world =
     sendMessageToServer (sample_env (always (garbled\<lparr>json := Some (JsonObject empty_object)\<rparr>)))
       (js ''hi'') None None sample_world"
proof -
  have d500: "decimal 500 = js ''500''"
    by (simp add: decimal.simps js_def)
  have pre: "\<not> inFlight sample_world" "js ''hi'' \<noteq> [] \<or> (None :: File option) \<noteq> None"
    by (simp_all add: sample_world_def js_def)
  have p1: "\<forall>j<0. server (sample_env (always adopting)) (length (fetch_log sample_world) + j) =
        Resolved (too_many) \<and> status too_many = 429"
    "0 \<le> MAX_RETRIES"
    "server (sample_env (always adopting)) (length (fetch_log sample_world) + 0) = Resolved adopting"
    "0 = MAX_RETRIES \<or> status adopting \<noteq> 429"
    by (simp_all add: sample_defs2)
  have a1: "ok adopting \<and> json adopting = Some (JsonObject \<lparr>data_reply = Some (js ''Hi there''), data_session_id = Some (js ''srv-123''), data_error = None\<rparr>) \<and> data_reply \<lparr>data_reply = Some (js ''Hi there''), data_session_id = Some (js ''srv-123''), data_error = None\<rparr> = Some (js ''Hi there'') \<and> js ''Hi there'' \<noteq> []"
    by (simp add: sample_defs2 ok_def js_def)
  have r1: "messagesEl (sendMessageToServer (sample_env (always adopting)) (js ''hi'') None None
      sample_world) =
      messagesEl sample_world @ [(User, own_text (js ''hi'') None), (Bot, js ''Hi there'')]"
    using response_rendering [where rs = "\<lambda>j. too_many" and i = None and d = "\<lparr>data_reply = Some (js ''Hi there''), data_session_id = Some (js ''srv-123''), data_error = None\<rparr>" and t = "js ''Hi there''",
        OF pre p1, THEN conjunct2, THEN conjunct2, THEN conjunct2, THEN conjunct1, THEN mp, OF a1] .
  have p2: "\<forall>j<0. server (sample_env (always garbled)) (length (fetch_log sample_world) + j) =
        Resolved (too_many) \<and> status too_many = 429"
    "0 \<le> MAX_RETRIES"
    "server (sample_env (always garbled)) (length (fetch_log sample_world) + 0) = Resolved garbled"
    "0 = MAX_RETRIES \<or> status garbled \<noteq> 429"
    by (simp_all add: sample_defs2)
  have a2: "ok garbled \<and> (json garbled = None \<or> json garbled = Some JsonOther \<or> json garbled = Some (JsonObject d) \<and> (data_reply d = None \<or> data_reply d = Some []))"
    by (simp add: sample_defs2 ok_def js_def)
  have r2: "messagesEl (sendMessageToServer (sample_env (always garbled)) (js ''hi'') None None
      sample_world) =
      messagesEl sample_world @ [(User, own_text (js ''hi'') None), (Bot, js ''No reply from server'')]"
    using response_rendering [where rs = "\<lambda>j. too_many" and i = None and d = d,
        OF pre p2, THEN conjunct2, THEN conjunct2, THEN conjunct2, THEN conjunct2, THEN conjunct1, THEN mp, OF a2] .
  have p3: "\<forall>j<0. server (sample_env (always refused)) (length (fetch_log sample_world) + j) =
        Resolved (too_many) \<and> status too_many = 429"
    "0 \<le> MAX_RETRIES"
    "server (sample_env (always refused)) (length (fetch_log sample_world) + 0) = Resolved refused"
    "0 = MAX_RETRIES \<or> status refused \<noteq> 429"
    by (simp_all add: sample_defs2)
  have a3: "\<not> ok refused \<and> json refused = Some (JsonObject \<lparr>data_reply = None, data_session_id = None, data_error = Some (js ''message too long'')\<rparr>) \<and> data_error \<lparr>data_reply = None, data_session_id = None, data_error = Some (js ''message too long'')\<rparr> = Some (js ''message too long'') \<and> js ''message too long'' \<noteq> []"
    by (simp add: sample_defs2 ok_def js_def)
  have r3: "messagesEl (sendMessageToServer (sample_env (always refused)) (js ''hi'') None None
      sample_world) =
      messagesEl sample_world @ [(User, own_text (js ''hi'') None), (Bot, js ''Error: '' @ js ''message too long'')]"
    using response_rendering [where rs = "\<lambda>j. too_many" and i = None and d = "\<lparr>data_reply = None, data_session_id = None, data_error = Some (js ''message too long'')\<rparr>" and t = "js ''message too long''",
        OF pre p3, THEN conjunct2, THEN conjunct2, THEN conjunct2, THEN conjunct2, THEN conjunct2, THEN conjunct1, THEN mp, OF a3] .
  have p4: "\<forall>j<0. server (sample_env (always server_down)) (length (fetch_log sample_world) + j) =
        Resolved (too_many) \<and> status too_many = 429"
    "0 \<le> MAX_RETRIES"
    "server (sample_env (always server_down)) (length (fetch_log sample_world) + 0) = Resolved server_down"
    "0 = MAX_RETRIES \<or> status server_down \<noteq> 429"
    by (simp_all add: sample_defs2)
  have a4: "\<not> ok server_down \<and> (json server_down = None \<or> json server_down = Some JsonOther \<or> json server_down = Some (JsonObject d) \<and> (data_error d = None \<or> data_error d = Some [])) \<and> statusText server_down \<noteq> []"
    by (simp add: sample_defs2 ok_def js_def)
  have r4: "messagesEl (sendMessageToServer (sample_env (always server_down)) (js ''hi'') None None
      sample_world) =
      messagesEl sample_world @ [(User, own_text (js ''hi'') None), (Bot, js ''Error: '' @ statusText server_down)]"
    using response_rendering [where rs = "\<lambda>j. too_many" and i = None and d = d,
        OF pre p4, THEN conjunct2, THEN conjunct2, THEN conjunct2, THEN conjunct2, THEN conjunct2, THEN conjunct2, THEN conjunct1, THEN mp, OF a4] .
  have p5: "\<forall>j<0. server (sample_env (always bare_500)) (length (fetch_log sample_world) + j) =
        Resolved (too_many) \<and> status too_many = 429"
    "0 \<le> MAX_RETRIES"
    "server (sample_env (always bare_500)) (length (fetch_log sample_world) + 0) = Resolved bare_500"
    "0 = MAX_RETRIES \<or> status bare_500 \<noteq> 429"
    by (simp_all add: sample_defs2)
  have a5: "\<not> ok bare_500 \<and> (json bare_500 = None \<or> json bare_500 = Some JsonOther \<or> json bare_500 = Some (JsonObject d) \<and> (data_error d = None \<or> data_error d = Some [])) \<and> statusText bare_500 = []"
    by (simp add: sample_defs2 ok_def js_def)
  have r5: "messagesEl (sendMessageToServer (sample_env (always bare_500)) (js ''hi'') None None
      sample_world) =
      messagesEl sample_world @ [(User, own_text (js ''hi'') None), (Bot, js ''Error: '' @ js ''HTTP '' @ decimal (status bare_500))]"
    using response_rendering [where rs = "\<lambda>j. too_many" and i = None and d = d,
        OF pre p5, THEN conjunct2, THEN conjunct2, THEN conjunct2, THEN conjunct2, THEN conjunct2, THEN conjunct2, THEN conjunct2, THEN mp, OF a5] .
  have p6: "\<forall>j<MAX_RETRIES. server (sample_env (always too_many)) (length (fetch_log sample_world) + j) =
        Resolved (too_many) \<and> status too_many = 429"
    "MAX_RETRIES \<le> MAX_RETRIES"
    "server (sample_env (always too_many)) (length (fetch_log sample_world) + MAX_RETRIES) = Resolved too_many"
    "MAX_RETRIES = MAX_RETRIES \<or> status too_many \<noteq> 429"
    by (simp_all add: sample_defs2)
  have a6: "\<not> ok too_many \<and> (json too_many = None \<or> json too_many = Some JsonOther \<or> json too_many = Some (JsonObject d) \<and> (data_error d = None \<or> data_error d = Some [])) \<and> statusText too_many \<noteq> []"
    by (simp add: sample_defs2 ok_def js_def)
  have r6: "messagesEl (sendMessageToServer (sample_env (always too_many)) (js ''hi'') None None
      sample_world) =
      messagesEl sample_world @ [(User, own_text (js ''hi'') None), (Bot, js ''Error: '' @ statusText too_many)]"
    using response_rendering [where rs = "\<lambda>j. too_many" and i = None and d = d,
        OF pre p6, THEN conjunct2, THEN conjunct2, THEN conjunct2, THEN conjunct2, THEN conjunct2, THEN conjunct2, THEN conjunct1, THEN mp, OF a6] .
  have p7: "\<forall>j<0. server (sample_env (always null_body)) (length (fetch_log sample_world) + j) =
        Resolved (too_many) \<and> status too_many = 429"
    "0 \<le> MAX_RETRIES"
    "server (sample_env (always null_body)) (length (fetch_log sample_world) + 0) = Resolved null_body"
    "0 = MAX_RETRIES \<or> status null_body \<noteq> 429"
    by (simp_all add: sample_defs2)
  have a7: "json null_body = Some JsonNull"
    by (simp add: sample_defs2)
  have r7: "messagesEl (sendMessageToServer (sample_env (always null_body)) (js ''hi'') None None
      sample_world) =
      messagesEl sample_world @
        [(User, own_text (js ''hi'') None),
         (Bot, js ''Network error '' @ [0x2014] @ js '' please try again.'')]"
    using response_rendering [where rs = "\<lambda>j. too_many" and i = None,
        OF pre p7, THEN conjunct2, THEN conjunct2, THEN conjunct1, THEN mp, OF a7, THEN conjunct1] .
  have a8: "json garbled \<noteq> Some JsonNull" "json garbled = None"
    by (simp_all add: sample_defs2)
  have r8: "console_log (sendMessageToServer (sample_env (always garbled)) (js ''hi'') None None
      sample_world) = console_log sample_world"
    using response_rendering [where rs = "\<lambda>j. too_many" and i = None,
        OF pre p2, THEN conjunct2, THEN conjunct1, THEN mp, OF a8(1)] .
  have same: "(sample_env (always garbled))\<lparr>server := (server (sample_env (always garbled)))
      (length (fetch_log sample_world) + 0 :=
         Resolved (garbled\<lparr>json := Some (JsonObject empty_object)\<rparr>))\<rparr> = sample_env (always garbled)
        \<lparr>server := (always garbled)(0 := Resolved (garbled\<lparr>json := Some (JsonObject empty_object)\<rparr>))\<rparr>"
    by (simp add: sample_env_def sample_world_def)
  have r9: "sendMessageToServer (sample_env (always garbled)) (js ''hi'') None None sample_world =
      sendMessageToServer (sample_env (always garbled)
        \<lparr>server := (always garbled)(0 := Resolved (garbled\<lparr>json := Some (JsonObject empty_object)\<rparr>))\<rparr>)
        (js ''hi'') None None sample_world"
    using response_rendering [where rs = "\<lambda>j. too_many" and i = None,
        OF pre p2, THEN conjunct1, THEN mp, OF a8(2)]
    unfolding same .
  have q: "\<forall>j<0. server (sample_env (always garbled)
        \<lparr>server := (always garbled)(0 := Resolved (garbled\<lparr>json := Some (JsonObject empty_object)\<rparr>))\<rparr>)
        (length (fetch_log sample_world) + j) = Resolved too_many \<and> status too_many = 429"
    "\<forall>j<0. server (sample_env (always (garbled\<lparr>json := Some (JsonObject empty_object)\<rparr>)))
        (length (fetch_log sample_world) + j) = Resolved too_many \<and> status too_many = 429"
    by simp_all
  have r10: "sendMessageToServer (sample_env (always garbled)
        \<lparr>server := (always garbled)(0 := Resolved (garbled\<lparr>json := Some (JsonObject empty_object)\<rparr>))\<rparr>)
        (js ''hi'') None None sample_world =
      sendMessageToServer (sample_env (always (garbled\<lparr>json := Some (JsonObject empty_object)\<rparr>)))
        (js ''hi'') None None sample_world"
    using send_run [OF pre q(1), where out = "Resolved (garbled\<lparr>json := Some (JsonObject empty_object)\<rparr>)"
        and i = None]
      send_run [OF pre q(2), where out = "Resolved (garbled\<lparr>json := Some (JsonObject empty_object)\<rparr>)"
        and i = None]
    by (simp add: sample_defs2 sent_def attach_headers_def compose_def language_def getToken_def)
  have shown: "messagesEl (sendMessageToServer (sample_env (always adopting)) (js ''hi'') None None
      sample_world) =
     [(Bot, js ''Hello! How can I help you today?''), (User, js ''hi''), (Bot, js ''Hi there'')] \<and>
   messagesEl (sendMessageToServer (sample_env (always garbled)) (js ''hi'') None None
      sample_world) =
     [(Bot, js ''Hello! How can I help you today?''), (User, js ''hi''),
      (Bot, js ''No reply from server'')] \<and>
   console_log (sendMessageToServer (sample_env (always garbled)) (js ''hi'') None None
      sample_world) = [] \<and>
   messagesEl (sendMessageToServer (sample_env (always refused)) (js ''hi'') None None
      sample_world) =
     [(Bot, js ''Hello! How can I help you today?''), (User, js ''hi''),
      (Bot, js ''Error: message too long'')] \<and>
   messagesEl (sendMessageToServer (sample_env (always server_down)) (js ''hi'') None None
      sample_world) =
     [(Bot, js ''Hello! How can I help you today?''), (User, js ''hi''),
      (Bot, js ''Error: Service Unavailable'')] \<and>
   messagesEl (sendMessageToServer (sample_env (always bare_500)) (js ''hi'') None None
      sample_world) =
     [(Bot, js ''Hello! How can I help you today?''), (User, js ''hi''),
      (Bot, js ''Error: HTTP 500'')] \<and>
   messagesEl (sendMessageToServer (sample_env (always too_many)) (js ''hi'') None None
      sample_world) =
     [(Bot, js ''Hello! How can I help you today?''), (User, js ''hi''),
      (Bot, js ''Error: Too Many Requests'')] \<and>
   messagesEl (sendMessageToServer (sample_env (always null_body)) (js ''hi'') None None
      sample_world) =
     [(Bot, js ''Hello! How can I help you today?''), (User, js ''hi''),
      (Bot, js ''Network error '' @ [0x2014] @ js '' please try again.'')]"
    unfolding r1 r2 r3 r4 r5 r6 r7 r8
    by (simp add: sample_defs2 own_text_def js_def d500)
  note unparsed = trans [OF r9 r10]
  from shown unparsed show ?thesis
    by blast
qed

subsection \<open>The request, and the session it names\<close>

lemma fetch_log_try_response [simp]: "fetch_log (try_response r w) = fetch_log w"
  by (simp add: try_response_def handle_response_def render_response_def handle_error_def
      appendMessage_def Let_def split: option.split parsed.split)

lemma fetch_log_handle_error [simp]: "fetch_log (handle_error err w) = fetch_log w"
  by (simp add: handle_error_def appendMessage_def)

lemma fetch_log_release [simp]: "fetch_log (release w) = fetch_log w"
  by (simp add: release_def)

text \<open>The requests of a submission: one request, sent between 1 and 5 times.\<close>

lemma send_requests:
  assumes "\<not> inFlight w" "m \<noteq> [] \<or> f \<noteq> None"
  shows "\<exists>k. 1 \<le> k \<and> k \<le> MAX_RETRIES + 1 \<and>
     fetch_log (sendMessageToServer e m f i w) =
       fetch_log w @ replicate k (API_CHAT, attach_headers e (compose e m f i w) w)"
proof -
  let ?w = "appendMessage User (own_text m f) (w\<lparr>inFlight := True\<rparr>)"
  obtain k tl res where k: "1 \<le> k" "0 \<le> MAX_RETRIES \<longrightarrow> 0 + k \<le> MAX_RETRIES + 1"
    and run: "fetchWithRetry e API_CHAT (compose e m f i w) 0 ?w =
      (res, ?w\<lparr>fetch_log := fetch_log ?w @
                 replicate k (API_CHAT, attach_headers e (compose e m f i w) ?w),
               timer_log := timer_log ?w @ tl\<rparr>)"
    using fetchWithRetry_frame [of 0 e API_CHAT "compose e m f i w" ?w] by blast
  have ah: "attach_headers e (compose e m f i w) ?w = attach_headers e (compose e m f i w) w"
    by (rule attach_headers_session) (simp add: appendMessage_def)
  have "fetch_log (sendMessageToServer e m f i w) =
      fetch_log w @ replicate k (API_CHAT, attach_headers e (compose e m f i w) w)"
    unfolding send_started [OF assms] run ah
    by (cases res) (simp_all add: appendMessage_def)
  with k show ?thesis by auto
qed

lemma session_header: "header (attach_headers e opts w) (js ''X-Client-Session'') = Some (session_id (session w))"
  using header_names_differ
  by (auto simp add: header_def attach_headers_def Let_def AList.update_conv' split: option.split)

lemma composed_file:
  "attach_headers e (compose e m (Some blob) i w) w =
     \<lparr>http_method = js ''POST'',
      headers = Some ((js ''X-Client-Session'', session_id (session w)) #
        (case getToken e of None \<Rightarrow> [] | Some t \<Rightarrow> [(js ''Authorization'', js ''Bearer '' @ t)])),
      body = FormData
        ([(js ''file'', FileEntry blob),
          (js ''session_id'', TextEntry (session_id (session w))),
          (js ''message'', TextEntry m),
          (js ''language'', TextEntry (language e))] @
         (case i of None \<Rightarrow> [] | Some x \<Rightarrow> if x = [] then [] else [(js ''intent'', TextEntry x)]))\<rparr>"
  using header_names_differ
  by (auto simp add: attach_headers_def compose_def Let_def split: option.split)

lemma composed_json:
  "attach_headers e (compose e m None i w) w =
     \<lparr>http_method = js ''POST'',
      headers = Some ((js ''Content-Type'', js ''application/json'') #
        (js ''X-Client-Session'', session_id (session w)) #
        (case getToken e of None \<Rightarrow> [] | Some t \<Rightarrow> [(js ''Authorization'', js ''Bearer '' @ t)])),
      body = JSON_body
        [(js ''session_id'', JString (session_id (session w))),
         (js ''message'', JString m),
         (js ''language'', JString (language e)),
         (js ''intent'', (case i of None \<Rightarrow> JNull | Some x \<Rightarrow> if x = [] then JNull else JString x))]\<rparr>"
proof -
  have keys: "js ''Content-Type'' \<noteq> js ''X-Client-Session''" "js ''Content-Type'' \<noteq> js ''Authorization''"
    "js ''X-Client-Session'' \<noteq> js ''Authorization''"
    by (simp_all add: js_def)
  then show ?thesis
    by (auto simp add: attach_headers_def compose_def Let_def split: option.split)
qed

text \<open>
  Claim C9. A submission that is sent issues one request, to \<open>/api/chat\<close>, between one and
  five times. With a file its body is a multipart form holding \<open>file\<close>, \<open>session_id\<close>,
  \<open>message\<close> (the text, the empty string when there is none), \<open>language\<close>, and \<open>intent\<close>
  only when an intent is given (not \<open>null\<close>, nor the empty string that \<open>if (intent)\<close> takes
  for none); without a file it is the JSON text of \<open>{session_id, message, language,
  intent}\<close>, the intent \<open>null\<close> when none is given, under the header \<open>Content-Type:
  application/json\<close>. In both encodings the headers carry \<open>X-Client-Session\<close> with the id
  of the current session and, when \<open>getToken\<close> finds a token, \<open>Authorization: Bearer\<close>
  followed by the token.
\<close>

theorem request_composition:
  assumes "\<not> inFlight w"
  shows
    "(f = Some blob \<longrightarrow>
        (\<exists>k. 1 \<le> k \<and> k \<le> MAX_RETRIES + 1 \<and>
           fetch_log (sendMessageToServer e m f i w) =
             fetch_log w @ replicate k
               (API_CHAT,
                \<lparr>http_method = js ''POST'',
                 headers = Some ((js ''X-Client-Session'', session_id (session w)) #
                   (case getToken e of
                      None \<Rightarrow> []
                    | Some t \<Rightarrow> [(js ''Authorization'', js ''Bearer '' @ t)])),
                 body = FormData
                   ([(js ''file'', FileEntry blob),
                     (js ''session_id'', TextEntry (session_id (session w))),
                     (js ''message'', TextEntry m),
                     (js ''language'', TextEntry (language e))] @
                    (case i of
                       None \<Rightarrow> []
                     | Some x \<Rightarrow> if x = [] then [] else [(js ''intent'', TextEntry x)]))\<rparr>))) \<and>
     (f = None \<and> m \<noteq> [] \<longrightarrow>
        (\<exists>k. 1 \<le> k \<and> k \<le> MAX_RETRIES + 1 \<and>
           fetch_log (sendMessageToServer e m f i w) =
             fetch_log w @ replicate k
               (API_CHAT,
                \<lparr>http_method = js ''POST'',
                 headers = Some ((js ''Content-Type'', js ''application/json'') #
                   (js ''X-Client-Session'', session_id (session w)) #
                   (case getToken e of
                      None \<Rightarrow> []
                    | Some t \<Rightarrow> [(js ''Authorization'', js ''Bearer '' @ t)])),
                 body = JSON_body
                   [(js ''session_id'', JString (session_id (session w))),
                    (js ''message'', JString m),
                    (js ''language'', JString (language e)),
                    (js ''intent'',
                       (case i of
                          None \<Rightarrow> JNull
                        | Some x \<Rightarrow> if x = [] then JNull else JString x))]\<rparr>)))"
proof (intro conjI impI)
  assume f: "f = Some blob"
  then have "m \<noteq> [] \<or> f \<noteq> None" by simp
  from send_requests [OF assms this, of e i]
  show "\<exists>k. 1 \<le> k \<and> k \<le> MAX_RETRIES + 1 \<and>
           fetch_log (sendMessageToServer e m f i w) =
             fetch_log w @ replicate k
               (API_CHAT,
                \<lparr>http_method = js ''POST'',
                 headers = Some ((js ''X-Client-Session'', session_id (session w)) #
                   (case getToken e of
                      None \<Rightarrow> []
                    | Some t \<Rightarrow> [(js ''Authorization'', js ''Bearer '' @ t)])),
                 body = FormData
                   ([(js ''file'', FileEntry blob),
                     (js ''session_id'', TextEntry (session_id (session w))),
                     (js ''message'', TextEntry m),
                     (js ''language'', TextEntry (language e))] @
                    (case i of
                       None \<Rightarrow> []
                     | Some x \<Rightarrow> if x = [] then [] else [(js ''intent'', TextEntry x)]))\<rparr>)"
    unfolding f composed_file .
next
  assume f: "f = None \<and> m \<noteq> []"
  then have "m \<noteq> [] \<or> f \<noteq> None" by simp
  from send_requests [OF assms this, of e i] f
  show "\<exists>k. 1 \<le> k \<and> k \<le> MAX_RETRIES + 1 \<and>
           fetch_log (sendMessageToServer e m f i w) =
             fetch_log w @ replicate k
               (API_CHAT,
                \<lparr>http_method = js ''POST'',
                 headers = Some ((js ''Content-Type'', js ''application/json'') #
                   (js ''X-Client-Session'', session_id (session w)) #
                   (case getToken e of
                      None \<Rightarrow> []
                    | Some t \<Rightarrow> [(js ''Authorization'', js ''Bearer '' @ t)])),
                 body = JSON_body
                   [(js ''session_id'', JString (session_id (session w))),
                    (js ''message'', JString m),
                    (js ''language'', JString (language e)),
                    (js ''intent'',
                       (case i of
                          None \<Rightarrow> JNull
                        | Some x \<Rightarrow> if x = [] then JNull else JString x))]\<rparr>)"
    by (simp add: composed_json)
qed


lemma hd_replicate_log: "1 \<le> k \<Longrightarrow> hd ([] @ replicate k x) = x"
  by (cases k) simp_all

theorem request_composition_witness:
  "hd (fetch_log (sendMessageToServer (sample_env (always adopting)) [] (Some sample_file)
      (Some (js ''complaint'')) sample_world)) =
     (js ''/api/chat'',
      \<lparr>http_method = js ''POST'',
       headers = Some [(js ''X-Client-Session'', js ''sess-k3x9q2ab''),
                       (js ''Authorization'', js ''Bearer tok'')],
       body = FormData
         [(js ''file'', FileEntry sample_file),
          (js ''session_id'', TextEntry (js ''sess-k3x9q2ab'')),
          (js ''message'', TextEntry []),
          (js ''language'', TextEntry (js ''en'')),
          (js ''intent'', TextEntry (js ''complaint''))]\<rparr>) \<and>
   hd (fetch_log (sendMessageToServer (sample_env (always adopting)) (js ''hi'') None None
      sample_world)) =
     (js ''/api/chat'',
      \<lparr>http_method = js ''POST'',
       headers = Some [(js ''Content-Type'', js ''application/json''),
                       (js ''X-Client-Session'', js ''sess-k3x9q2ab''),
                       (js ''Authorization'', js ''Bearer tok'')],
       body = JSON_body
         [(js ''session_id'', JString (js ''sess-k3x9q2ab'')),
          (js ''message'', JString (js ''hi'')),
          (js ''language'', JString (js ''en'')),
          (js ''intent'', JNull)]\<rparr>)"
proof -
  let ?E = "sample_env (always adopting)"
  have pre: "\<not> inFlight sample_world"
    by (simp add: sample_world_def)
  have nil: "fetch_log sample_world = []"
    by (simp add: sample_world_def)
  have a1: "Some sample_file = Some sample_file" ..
  have a2: "(None :: File option) = None \<and> js ''hi'' \<noteq> []"
    by (simp add: js_def)
  from request_composition [OF pre, where f = "Some sample_file" and blob = sample_file
      and e = ?E and m = "[]" and i = "Some (js ''complaint'')", THEN conjunct1, THEN mp, OF a1]
  obtain k1 where k1: "1 \<le> k1"
    "fetch_log (sendMessageToServer ?E [] (Some sample_file) (Some (js ''complaint''))
       sample_world) =
     [] @ replicate k1
       (API_CHAT,
        \<lparr>http_method = js ''POST'',
         headers = Some ((js ''X-Client-Session'', session_id (session sample_world)) #
           (case getToken ?E of
              None \<Rightarrow> []
            | Some t \<Rightarrow> [(js ''Authorization'', js ''Bearer '' @ t)])),
         body = FormData
           ([(js ''file'', FileEntry sample_file),
             (js ''session_id'', TextEntry (session_id (session sample_world))),
             (js ''message'', TextEntry []),
             (js ''language'', TextEntry (language ?E))] @
            (case Some (js ''complaint'') of
               None \<Rightarrow> []
             | Some x \<Rightarrow> if x = [] then [] else [(js ''intent'', TextEntry x)]))\<rparr>)"
    unfolding nil by blast
  from request_composition [OF pre, where f = None and blob = sample_file
      and e = ?E and m = "js ''hi''" and i = None, THEN conjunct2, THEN mp, OF a2]
  obtain k2 where k2: "1 \<le> k2"
    "fetch_log (sendMessageToServer ?E (js ''hi'') None None sample_world) =
     [] @ replicate k2
       (API_CHAT,
        \<lparr>http_method = js ''POST'',
         headers = Some ((js ''Content-Type'', js ''application/json'') #
           (js ''X-Client-Session'', session_id (session sample_world)) #
           (case getToken ?E of
              None \<Rightarrow> []
            | Some t \<Rightarrow> [(js ''Authorization'', js ''Bearer '' @ t)])),
         body = JSON_body
           [(js ''session_id'', JString (session_id (session sample_world))),
            (js ''message'', JString (js ''hi'')),
            (js ''language'', JString (language ?E)),
            (js ''intent'',
               (case None of
                  None \<Rightarrow> JNull
                | Some x \<Rightarrow> if x = [] then JNull else JString x))]\<rparr>)"
    unfolding nil by blast
  show ?thesis
    unfolding k1(2) k2(2) hd_replicate_log [OF k1(1)] hd_replicate_log [OF k2(1)]
    by (simp add: sample_defs2 API_CHAT_def getToken_def language_def js_def)
qed

lemma session_id_update:
  "(s :: Session)\<lparr>session_id := sid\<rparr> = \<lparr>session_id = sid, created_at = created_at s\<rparr>"
  by (cases s) simp

lemma getItem_setItem: "getItem k (setItem k v ls) = Some v"
  by (simp add: getItem_def setItem_def AList.update_conv')

text \<open>
  Claim C6. A submission ends with a successful response. When the response carries a
  session id (a session id is never empty) that differs from the current one, the id of
  \<open>session\<close> is replaced and the session is written to \<open>localStorage\<close> at once, its
  \<open>created_at\<close> unchanged, so that \<open>getSession\<close> reads the adopted session back; every
  request of any later submission carries the adopted id in \<open>X-Client-Session\<close>. When the
  response carries no session id (no body that parses, a body that is not an object, no
  \<open>session_id\<close> member, or an empty one), or the current id, \<open>session\<close> and \<open>localStorage\<close>
  are unchanged.
\<close>

theorem session_adoption:
  assumes "\<not> inFlight w" and "m \<noteq> [] \<or> f \<noteq> None"
    and "\<forall>j<k. server e (length (fetch_log w) + j) = Resolved (rs j) \<and> status (rs j) = 429"
    and "k \<le> MAX_RETRIES"
    and "server e (length (fetch_log w) + k) = Resolved resp"
    and "ok resp"
  shows
    "(json resp = Some (JsonObject d) \<and> data_session_id d = Some sid \<and> sid \<noteq> [] \<and>
        sid \<noteq> session_id (session w) \<longrightarrow>
        session (sendMessageToServer e m f i w) =
          \<lparr>session_id = sid, created_at = created_at (session w)\<rparr> \<and>
        localStorage (sendMessageToServer e m f i w) =
          setItem STORAGE_KEY
            (JSON_stringify \<lparr>session_id = sid, created_at = created_at (session w)\<rparr>)
            (localStorage w) \<and>
        fst (getSession e' (localStorage (sendMessageToServer e m f i w))) =
          Inr \<lparr>session_id = sid, created_at = created_at (session w)\<rparr> \<and>
        (\<forall>e2 m2 f2 i2. m2 \<noteq> [] \<or> f2 \<noteq> None \<longrightarrow>
           (\<exists>n opts2. 1 \<le> n \<and>
              fetch_log (sendMessageToServer e2 m2 f2 i2 (sendMessageToServer e m f i w)) =
                fetch_log (sendMessageToServer e m f i w) @ replicate n (API_CHAT, opts2) \<and>
              header opts2 (js ''X-Client-Session'') = Some sid))) \<and>
     (json resp = None \<or> json resp = Some JsonNull \<or> json resp = Some JsonOther \<or>
        json resp = Some (JsonObject d) \<and>
          (data_session_id d = None \<or> data_session_id d = Some [] \<or>
           data_session_id d = Some (session_id (session w))) \<longrightarrow>
        session (sendMessageToServer e m f i w) = session w \<and>
        localStorage (sendMessageToServer e m f i w) = localStorage w)"
proof -
  let ?w' = "sendMessageToServer e m f i w"
  from assms(6) have "status resp \<noteq> 429" by (auto simp: ok_def)
  then have "k = MAX_RETRIES \<or> (\<forall>r. Resolved resp = Resolved r \<longrightarrow> status r \<noteq> 429)"
    by auto
  with assms(1-5)
  have run: "?w' = release (try_response resp (sent e m f i w k rs))"
    using send_run [of w m f k e rs "Resolved resp" i] by simp
  have idle: "\<not> inFlight ?w'"
    unfolding run by (simp add: release_def)
  show ?thesis
  proof (intro conjI impI)
    assume a: "json resp = Some (JsonObject d) \<and> data_session_id d = Some sid \<and> sid \<noteq> [] \<and>
        sid \<noteq> session_id (session w)"
    let ?s = "\<lparr>session_id = sid, created_at = created_at (session w)\<rparr>"
    from a assms(6) show s: "session ?w' = ?s"
      unfolding run by (simp add: handle_defs session_id_update)
    from a assms(6) show ls: "localStorage ?w' = setItem STORAGE_KEY (JSON_stringify ?s) (localStorage w)"
      unfolding run by (simp add: handle_defs session_id_update)
    show "fst (getSession e' (localStorage ?w')) = Inr ?s"
      unfolding ls
      by (simp add: getSession_def getItem_setItem no_text_def JSON_stringify_def JSON_parse_def)
    show "\<forall>e2 m2 f2 i2. m2 \<noteq> [] \<or> f2 \<noteq> None \<longrightarrow>
           (\<exists>n opts2. 1 \<le> n \<and>
              fetch_log (sendMessageToServer e2 m2 f2 i2 ?w') =
                fetch_log ?w' @ replicate n (API_CHAT, opts2) \<and>
              header opts2 (js ''X-Client-Session'') = Some sid)"
    proof (intro allI impI)
      fix e2 :: env and m2 :: jsstring and f2 :: "File option" and i2 :: "jsstring option"
      assume "m2 \<noteq> [] \<or> f2 \<noteq> None"
      from send_requests [OF idle this, of e2 i2]
      obtain n where "1 \<le> n" "fetch_log (sendMessageToServer e2 m2 f2 i2 ?w') =
          fetch_log ?w' @ replicate n (API_CHAT, attach_headers e2 (compose e2 m2 f2 i2 ?w') ?w')"
        by blast
      moreover have "header (attach_headers e2 (compose e2 m2 f2 i2 ?w') ?w')
          (js ''X-Client-Session'') = Some sid"
        by (simp add: session_header s)
      ultimately show "\<exists>n opts2. 1 \<le> n \<and>
              fetch_log (sendMessageToServer e2 m2 f2 i2 ?w') =
                fetch_log ?w' @ replicate n (API_CHAT, opts2) \<and>
              header opts2 (js ''X-Client-Session'') = Some sid"
        by blast
    qed
  next
    assume a: "json resp = None \<or> json resp = Some JsonNull \<or> json resp = Some JsonOther \<or>
        json resp = Some (JsonObject d) \<and>
          (data_session_id d = None \<or> data_session_id d = Some [] \<or>
           data_session_id d = Some (session_id (session w)))"
    with assms(6) show "session ?w' = session w"
      unfolding run by (auto simp add: handle_defs)
    from a assms(6) show "localStorage ?w' = localStorage w"
      unfolding run by (auto simp add: handle_defs)
  qed
qed


lemma nth_replicate_log: "1 \<le> n \<Longrightarrow> (xs @ replicate n x) ! length xs = x"
  by (cases n) simp_all

theorem session_adoption_witness:
  "session (sendMessageToServer (sample_env (always adopting)) (js ''hi'') None None
      sample_world) =
     \<lparr>session_id = js ''srv-123'', created_at = js ''2024-05-01T10:00:00.000Z''\<rparr> \<and>
   localStorage (sendMessageToServer (sample_env (always adopting)) (js ''hi'') None None
      sample_world) =
     [(js ''chat_widget_session'',
       JSON_of \<lparr>session_id = js ''srv-123'', created_at = js ''2024-05-01T10:00:00.000Z''\<rparr>)] \<and>
   header (snd (fetch_log
        (sendMessageToServer (sample_env offline) (js ''again'') None None
           (sendMessageToServer (sample_env (always adopting)) (js ''hi'') None None
              sample_world)) !
      length (fetch_log (sendMessageToServer (sample_env (always adopting)) (js ''hi'') None
        None sample_world))))
     (js ''X-Client-Session'') = Some (js ''srv-123'') \<and>
   session (sendMessageToServer (sample_env (always garbled)) (js ''hi'') None None
      sample_world) = sample_session \<and>
   localStorage (sendMessageToServer (sample_env (always garbled)) (js ''hi'') None None
      sample_world) = [(js ''chat_widget_session'', JSON_of sample_session)]"
proof -
  let ?E = "sample_env (always adopting)"
  let ?G = "sample_env (always garbled)"
  let ?w' = "sendMessageToServer ?E (js ''hi'') None None sample_world"
  let ?d = "\<lparr>data_reply = Some (js ''Hi there''), data_session_id = Some (js ''srv-123''),
      data_error = None\<rparr>"
  have pre: "\<not> inFlight sample_world" "js ''hi'' \<noteq> [] \<or> (None :: File option) \<noteq> None"
    by (simp_all add: sample_world_def js_def)
  have p: "\<forall>j<0. server (sample_env (always r)) (length (fetch_log sample_world) + j) =
        Resolved too_many \<and> status too_many = 429"
    "0 \<le> MAX_RETRIES"
    "server (sample_env (always r)) (length (fetch_log sample_world) + 0) = Resolved r" for r
    by (simp_all add: sample_defs2)
  have oks: "ok adopting" "ok garbled"
    by (simp_all add: sample_defs2 ok_def)
  have a1: "json adopting = Some (JsonObject ?d) \<and> data_session_id ?d = Some (js ''srv-123'') \<and>
      js ''srv-123'' \<noteq> [] \<and> js ''srv-123'' \<noteq> session_id (session sample_world)"
    by (simp add: sample_defs2 js_def)
  have a2: "json garbled = None \<or> json garbled = Some JsonNull \<or> json garbled = Some JsonOther \<or>
      json garbled = Some (JsonObject ?d) \<and>
      (data_session_id ?d = None \<or> data_session_id ?d = Some [] \<or>
       data_session_id ?d = Some (session_id (session sample_world)))"
    by (simp add: sample_defs2)
  note adopt = session_adoption [where rs = "\<lambda>j. too_many" and i = None and e' = ?E,
      OF pre p oks(1), THEN conjunct1, THEN mp, OF a1]
  note keep = session_adoption [where rs = "\<lambda>j. too_many" and i = None and e' = ?E,
      OF pre p oks(2), THEN conjunct2, THEN mp, OF a2]
  have s: "session ?w' = \<lparr>session_id = js ''srv-123'', created_at = created_at (session sample_world)\<rparr>"
    using adopt by blast
  have ls: "localStorage ?w' = setItem STORAGE_KEY
      (JSON_stringify \<lparr>session_id = js ''srv-123'', created_at = created_at (session sample_world)\<rparr>)
      (localStorage sample_world)"
    using adopt by blast
  have "js ''again'' \<noteq> [] \<or> (None :: File option) \<noteq> None"
    by (simp add: js_def)
  with adopt obtain n opts2 where n: "1 \<le> n"
    "fetch_log (sendMessageToServer (sample_env offline) (js ''again'') None None ?w') =
       fetch_log ?w' @ replicate n (API_CHAT, opts2)"
    "header opts2 (js ''X-Client-Session'') = Some (js ''srv-123'')"
    by blast
  have nxt: "header (snd (fetch_log
        (sendMessageToServer (sample_env offline) (js ''again'') None None ?w') !
      length (fetch_log ?w'))) (js ''X-Client-Session'') = Some (js ''srv-123'')"
    unfolding n(2) nth_replicate_log [OF n(1)] using n(3) by simp
  from keep have k: "session (sendMessageToServer ?G (js ''hi'') None None sample_world) =
      session sample_world"
    "localStorage (sendMessageToServer ?G (js ''hi'') None None sample_world) =
      localStorage sample_world"
    by blast+
  show ?thesis
    unfolding s ls k using nxt
    by (simp add: sample_world_def sample_session_def setItem_def JSON_stringify_def
        STORAGE_KEY_def)
qed

section \<open>The session store\<close>

text \<open>
  Claim C4, as stated, fails on a persisted value that does not parse. With the text
  \<open>{oops\<close> under the storage key, \<open>getSession\<close> returns no session: the SyntaxError of
  \<open>JSON.parse\<close> reaches the caller, and nothing is persisted.
\<close>

theorem corrupt_session_throws:
  "JSON_parse (NotJSON (js ''{oops'')) = Inl SyntaxError \<and>
   getSession (sample_env offline) [(STORAGE_KEY, NotJSON (js ''{oops''))] =
     (Inl SyntaxError, [(STORAGE_KEY, NotJSON (js ''{oops''))])"
  by (simp add: getSession_def getItem_def no_text_def JSON_parse_def js_def)

lemma getSession_again:
  "getSession e ls = (r, ls') \<Longrightarrow> getSession e2 ls' = (r, ls')"
  by (auto simp add: getSession_def Let_def getItem_setItem no_text_def JSON_stringify_def
      JSON_parse_def split: if_splits option.splits jstext.splits)

text \<open>
  Claim C4, amended. When no session is persisted (no value under the key, or the empty
  string), \<open>getSession\<close> makes a session with a freshly generated id and the current time,
  persists it and returns it; a persisted session is returned as it is; a persisted value
  that does not parse is not replaced: \<open>getSession\<close> throws and leaves the storage as it
  was; and a second call right after a first returns what the first returned, so the same
  \<open>session_id\<close>, and leaves the storage as the first left it.
\<close>

theorem getSession_cases:
  "(no_text (getItem STORAGE_KEY ls) \<longrightarrow>
      getSession e ls =
        (Inr \<lparr>session_id = js ''sess-'' @ random_suffix e, created_at = now_iso e\<rparr>,
         setItem STORAGE_KEY
           (JSON_stringify \<lparr>session_id = js ''sess-'' @ random_suffix e, created_at = now_iso e\<rparr>)
           ls)) \<and>
   (getItem STORAGE_KEY ls = Some (JSON_stringify s) \<longrightarrow> getSession e ls = (Inr s, ls)) \<and>
   (getItem STORAGE_KEY ls = Some (NotJSON t) \<and> t \<noteq> [] \<longrightarrow>
      getSession e ls = (Inl SyntaxError, ls)) \<and>
   getSession e2 (snd (getSession e ls)) = getSession e ls"
proof (intro conjI impI)
  assume "no_text (getItem STORAGE_KEY ls)"
  then show "getSession e ls =
        (Inr \<lparr>session_id = js ''sess-'' @ random_suffix e, created_at = now_iso e\<rparr>,
         setItem STORAGE_KEY
           (JSON_stringify \<lparr>session_id = js ''sess-'' @ random_suffix e, created_at = now_iso e\<rparr>)
           ls)"
    by (simp add: getSession_def genSessionId_def JSON_stringify_def JSON_parse_def)
next
  assume "getItem STORAGE_KEY ls = Some (JSON_stringify s)"
  then show "getSession e ls = (Inr s, ls)"
    by (simp add: getSession_def no_text_def JSON_stringify_def JSON_parse_def)
next
  assume "getItem STORAGE_KEY ls = Some (NotJSON t) \<and> t \<noteq> []"
  then show "getSession e ls = (Inl SyntaxError, ls)"
    by (simp add: getSession_def no_text_def JSON_parse_def)
next
  show "getSession e2 (snd (getSession e ls)) = getSession e ls"
    using getSession_again [of e ls "fst (getSession e ls)" "snd (getSession e ls)" e2]
    by simp
qed

theorem getSession_cases_witness:
  "getSession (sample_env offline) [] =
     (Inr \<lparr>session_id = js ''sess-k3x9q2ab'', created_at = js ''2024-05-01T10:00:00.000Z''\<rparr>,
      [(js ''chat_widget_session'',
        JSON_of \<lparr>session_id = js ''sess-k3x9q2ab'',
                 created_at = js ''2024-05-01T10:00:00.000Z''\<rparr>)]) \<and>
   getSession (sample_env offline) [(STORAGE_KEY, JSON_stringify sample_session)] =
     (Inr sample_session, [(STORAGE_KEY, JSON_stringify sample_session)]) \<and>
   getSession (sample_env offline) [(STORAGE_KEY, NotJSON (js ''{oops''))] =
     (Inl SyntaxError, [(STORAGE_KEY, NotJSON (js ''{oops''))])"
proof -
  let ?E = "sample_env offline"
  have a1: "no_text (getItem STORAGE_KEY [])"
    by (simp add: no_text_def getItem_def)
  have a2: "getItem STORAGE_KEY [(STORAGE_KEY, JSON_stringify sample_session)] =
      Some (JSON_stringify sample_session)"
    by (simp add: getItem_def)
  have a3: "getItem STORAGE_KEY [(STORAGE_KEY, NotJSON (js ''{oops''))] =
      Some (NotJSON (js ''{oops'')) \<and> js ''{oops'' \<noteq> []"
    by (simp add: getItem_def js_def)
  note c1 = getSession_cases [where e = ?E and ls = "[]", THEN conjunct1, THEN mp, OF a1]
  note c2 = getSession_cases [where e = ?E, THEN conjunct2, THEN conjunct1, THEN mp, OF a2]
  note c3 = getSession_cases [where e = ?E, THEN conjunct2, THEN conjunct2, THEN conjunct1,
      THEN mp, OF a3]
  show ?thesis
    unfolding c1 c2 c3
    by (simp add: sample_env_def setItem_def JSON_stringify_def STORAGE_KEY_def js_def)
qed

section \<open>Submissions in flight\<close>

lemma woven_refl: "woven xs xs"
  by (induction xs) auto

lemma woven_append: "woven xs ys \<Longrightarrow> woven (xs @ zs) (ys @ zs)"
proof (induction xs ys rule: woven.induct)
  case (1 xs)
  then show ?case by (simp add: woven_refl)
next
  case (2 y ys)
  then show ?case by (cases zs) auto
next
  case (3 x xs y ys)
  then show ?case by auto
qed

lemma woven_notice: "woven xs ys \<Longrightarrow> woven xs (ys @ [(Bot, please_wait)])"
proof (induction xs ys rule: woven.induct)
  case (1 xs)
  then show ?case by simp
next
  case (2 y ys)
  then show ?case by simp
next
  case (3 x xs y ys)
  then show ?case by auto
qed

lemma same_but_notices_iff:
  "same_but_notices (w, ts) (w', ts') \<longleftrightarrow>
     ts' = ts \<and> (\<exists>ms. w' = w\<lparr>messagesEl := ms\<rparr> \<and> woven (messagesEl w) ms)"
  by (auto simp add: same_but_notices_def)

lemmas step_defs =
  begin_fetch_def attach_headers_def fetch_def setTimeout_def release_def handle_error_def
  render_response_def appendMessage_def Let_def

lemma render_response_messages:
  "\<exists>b. messagesEl (render_response d resp w) = messagesEl w @ [b] \<and>
     render_response d resp (w\<lparr>messagesEl := ms\<rparr>) =
       (render_response d resp w)\<lparr>messagesEl := ms @ [b]\<rparr>"
proof -
  let ?b = "(Bot, if ok resp
      then (case data_reply d of None \<Rightarrow> no_reply | Some r \<Rightarrow> if r \<noteq> [] then r else no_reply)
      else js ''Error: '' @ errText d resp)"
  show ?thesis
    by (intro exI [of _ ?b]) (simp add: step_defs split: option.split)
qed

lemma handle_error_messages:
  "messagesEl (handle_error err w) = messagesEl w @ [(Bot, network_error)] \<and>
     handle_error err (w\<lparr>messagesEl := ms\<rparr>) =
       (handle_error err w)\<lparr>messagesEl := ms @ [(Bot, network_error)]\<rparr>"
  by (simp add: step_defs)

lemma try_response_messages:
  "\<exists>b. messagesEl (try_response resp w) = messagesEl w @ [b] \<and>
     try_response resp (w\<lparr>messagesEl := ms\<rparr>) =
       (try_response resp w)\<lparr>messagesEl := ms @ [b]\<rparr>"
proof (cases "json resp")
  case None
  with render_response_messages [of empty_object resp w ms] show ?thesis
    by (simp add: try_response_def handle_response_def)
next
  case (Some p)
  show ?thesis
  proof (cases p)
    case JsonNull
    with Some handle_error_messages [of TypeError w ms] show ?thesis
      by (simp add: try_response_def handle_response_def)
  next
    case (JsonObject d)
    with Some render_response_messages [of d resp w ms] show ?thesis
      by (simp add: try_response_def handle_response_def)
  next
    case JsonOther
    with Some render_response_messages [of empty_object resp w ms] show ?thesis
      by (simp add: try_response_def handle_response_def)
  qed
qed

lemma resume_messages:
  assumes "woven (messagesEl w) ms"
  shows "\<exists>ms'. resume e t (w\<lparr>messagesEl := ms\<rparr>) =
      ((fst (resume e t w))\<lparr>messagesEl := ms'\<rparr>, snd (resume e t w)) \<and>
      woven (messagesEl (fst (resume e t w))) ms'"
proof (cases t)
  case (AwaitFetch url opts1 attempt n)
  show ?thesis
  proof (cases "server e n")
    case Rejected
    with AwaitFetch woven_append [OF assms, of "[(Bot, network_error)]"] show ?thesis
      by (intro exI [of _ "ms @ [(Bot, network_error)]"]) (simp add: step_defs)
  next
    case (Resolved resp)
    with AwaitFetch assms show ?thesis
      by (intro exI [of _ ms]) (simp add: step_defs)
  qed
next
  case (AwaitTimer url opts1 attempt)
  with assms show ?thesis
    by (intro exI [of _ ms]) (simp add: step_defs)
next
  case (AwaitJson resp)
  obtain b where b: "messagesEl (try_response resp w) = messagesEl w @ [b]"
    "try_response resp (w\<lparr>messagesEl := ms\<rparr>) = (try_response resp w)\<lparr>messagesEl := ms @ [b]\<rparr>"
    using try_response_messages [of resp w ms] by blast
  with AwaitJson woven_append [OF assms, of "[b]"] show ?thesis
    by (intro exI [of _ "ms @ [b]"]) (simp add: release_def)
qed


lemma settle_messages:
  "settle k ts (w\<lparr>messagesEl := ms\<rparr>, t) =
     ((fst (settle k ts (w, t)))\<lparr>messagesEl := ms\<rparr>, snd (settle k ts (w, t)))"
  by (cases t) simp_all

lemma fst_settle: "fst (settle k ts (w, t)) = w"
  by (cases t) simp_all

lemma snd_settle: "snd (settle k ts (w\<lparr>messagesEl := ms\<rparr>, t)) = snd (settle k ts (w, t))"
  by (cases t) simp_all

lemma begin_fetch_messages:
  "begin_fetch e url opts a (w\<lparr>messagesEl := ms\<rparr>) =
     ((fst (begin_fetch e url opts a w))\<lparr>messagesEl := ms\<rparr>, snd (begin_fetch e url opts a w))"
  "messagesEl (fst (begin_fetch e url opts a w)) = messagesEl w"
  by (simp_all add: step_defs)

lemma step_simulation:
  assumes "same_but_notices p q"
  shows "same_but_notices (step_unless_busy e ev p) (step e ev q)"
proof -
  obtain w ts where p: "p = (w, ts)" by (cases p)
  with assms obtain ms where q: "q = (w\<lparr>messagesEl := ms\<rparr>, ts)"
    and ms: "woven (messagesEl w) ms"
    by (cases q) (auto simp add: same_but_notices_iff)
  show ?thesis
  proof (cases ev)
    case (Call m f i)
    show ?thesis
    proof (cases "inFlight w")
      case True
      with Call p q woven_notice [OF ms] show ?thesis
        by (auto simp add: same_but_notices_iff appendMessage_def
            intro!: exI [of _ "ms @ [(Bot, please_wait)]"])
    next
      case False
      show ?thesis
      proof (cases "m = [] \<and> f = None")
        case True
        with Call p q ms False show ?thesis
          by (auto simp add: same_but_notices_iff intro!: exI [of _ ms])
      next
        case sends: False
        let ?own = "(User, own_text m f)"
        let ?w2 = "appendMessage User (own_text m f) (w\<lparr>inFlight := True\<rparr>)"
        let ?q2 = "appendMessage User (own_text m f) (w\<lparr>messagesEl := ms, inFlight := True\<rparr>)"
        have q2: "?q2 = ?w2\<lparr>messagesEl := ms @ [?own]\<rparr>"
          by (simp add: appendMessage_def)
        have c: "compose e m f i (?w2\<lparr>messagesEl := ms @ [?own]\<rparr>) = compose e m f i ?w2"
          by (rule compose_session) simp
        have wv: "woven (messagesEl ?w2) (ms @ [?own])"
          using woven_append [OF ms, of "[?own]"] by (simp add: appendMessage_def)
        obtain w3 t where b: "begin_fetch e API_CHAT (compose e m f i ?w2) 0 ?w2 = (w3, t)"
          by (cases "begin_fetch e API_CHAT (compose e m f i ?w2) 0 ?w2")
        have b': "begin_fetch e API_CHAT (compose e m f i ?w2) 0
            (?w2\<lparr>messagesEl := ms @ [?own]\<rparr>) = (w3\<lparr>messagesEl := ms @ [?own]\<rparr>, t)"
          unfolding begin_fetch_messages(1) b by simp
        have m3: "messagesEl w3 = messagesEl ?w2"
          using begin_fetch_messages(2) [of e API_CHAT "compose e m f i ?w2" 0 ?w2]
          unfolding b by simp
        have "step_unless_busy e ev p = (w3, ts @ [t])"
          using Call p False sends b by simp
        moreover have "step e ev q = (w3\<lparr>messagesEl := ms @ [?own]\<rparr>, ts @ [t])"
          using Call q False sends b' by (simp add: q2 c Let_def)
        ultimately show ?thesis
          using wv m3 by (auto simp add: same_but_notices_iff)
      qed
    qed
  next
    case (Resume k)
    show ?thesis
    proof (cases "k < length ts")
      case False
      with Resume p q ms show ?thesis
        by (auto simp add: same_but_notices_iff)
    next
      case True
      obtain ms' where r: "resume e (ts ! k) (w\<lparr>messagesEl := ms\<rparr>) =
          ((fst (resume e (ts ! k) w))\<lparr>messagesEl := ms'\<rparr>, snd (resume e (ts ! k) w))"
        and ms': "woven (messagesEl (fst (resume e (ts ! k) w))) ms'"
        using resume_messages [OF ms, of e "ts ! k"] by blast
      obtain w1 t1 where w1: "resume e (ts ! k) w = (w1, t1)"
        by (cases "resume e (ts ! k) w")
      from Resume p q True r ms' w1 show ?thesis
        by (cases t1) (auto simp add: same_but_notices_iff)
    qed
  qed
qed

lemma same_but_notices_refl: "same_but_notices p p"
  by (cases p) (auto simp add: same_but_notices_iff woven_refl intro!: exI [of _ "messagesEl (fst p)"])

lemma run_simulation:
  "same_but_notices p q \<Longrightarrow> same_but_notices (run_unless_busy evs p) (run evs q)"
  unfolding run_unless_busy_def run_def
  by (induction evs arbitrary: p q) (simp_all add: step_simulation split: prod.split)

lemma begin_fetch_inFlight: "inFlight (fst (begin_fetch e url opts a w)) = inFlight w"
  by (simp add: step_defs)

lemma resume_single_flight:
  "inFlight w \<Longrightarrow> (case resume e t w of (w1, None) \<Rightarrow> \<not> inFlight w1 | (w1, Some t1) \<Rightarrow> inFlight w1)"
proof (cases t)
  case (AwaitFetch url opts1 attempt n)
  assume "inFlight w"
  with AwaitFetch show ?thesis
    by (cases "server e n") (simp_all add: step_defs)
next
  case (AwaitTimer url opts1 attempt)
  assume "inFlight w"
  with AwaitTimer show ?thesis by (simp add: step_defs)
next
  case (AwaitJson resp)
  then show ?thesis by (simp add: release_def)
qed

lemma step_single_flight:
  assumes "single_flight p"
  shows "single_flight (step e ev p)"
proof -
  obtain w ts where p: "p = (w, ts)" by (cases p)
  show ?thesis
  proof (cases ev)
    case (Call m f i)
    with p assms show ?thesis
      by (auto simp add: single_flight_def step_defs split: prod.split)
  next
    case (Resume k)
    show ?thesis
    proof (cases "k < length ts")
      case False
      with Resume p assms show ?thesis by simp
    next
      case True
      with p assms obtain t where ts: "ts = [t]" "k = 0" "inFlight w"
        by (cases ts) (auto simp add: single_flight_def)
      obtain w1 t1 where r: "resume e t w = (w1, t1)" by (cases "resume e t w")
      with resume_single_flight [OF ts(3), where e = e and t = t] Resume p ts show ?thesis
        by (cases t1) (auto simp add: single_flight_def)
    qed
  qed
qed

lemma run_single_flight: "single_flight p \<Longrightarrow> single_flight (run evs p)"
  unfolding run_def
  by (induction evs arbitrary: p) (simp_all add: step_single_flight split: prod.split)

lemma run_Cons: "run ((e, ev) # evs) p = run evs (step e ev p)"
  by (simp add: run_def)

lemma run_idle_any: "run (map (\<lambda>x. (x, Resume 0)) es) (w, []) = (w, [])"
  by (induction es) (simp_all add: run_Cons, simp add: run_def)

lemma run_idle: "run (replicate n (e, Resume 0)) (w, []) = (w, [])"
  using run_idle_any [of "replicate n e" w] by simp

lemma resume_progress:
  "case resume e t w of
     (w1, None) \<Rightarrow> \<not> inFlight w1
   | (w1, Some t1) \<Rightarrow> resumptions_left t1 < resumptions_left t"
proof (cases t)
  case (AwaitFetch url opts1 attempt n)
  then show ?thesis
    by (cases "server e n") (auto simp add: release_def)
next
  case (AwaitTimer url opts1 attempt)
  then show ?thesis by (simp add: begin_fetch_def Let_def fetch_def)
next
  case (AwaitJson resp)
  then show ?thesis by (simp add: release_def)
qed

lemma run_to_end:
  "resumptions_left t \<le> length es \<Longrightarrow>
   snd (run (map (\<lambda>x. (x, Resume 0)) es) (w, [t])) = [] \<and>
   \<not> inFlight (fst (run (map (\<lambda>x. (x, Resume 0)) es) (w, [t])))"
proof (induction es arbitrary: t w)
  case Nil
  then show ?case by (cases t) simp_all
next
  case (Cons e es)
  obtain w1 t1 where r: "resume e t w = (w1, t1)" by (cases "resume e t w")
  show ?case
  proof (cases t1)
    case None
    with r resume_progress [where e = e and t = t and w = w] show ?thesis
      by (simp add: run_Cons run_idle_any)
  next
    case (Some t')
    with r resume_progress [where e = e and t = t and w = w] Cons.prems
    have "resumptions_left t' \<le> length es" by simp
    from Cons.IH [OF this, of w1] r Some show ?thesis
      by (simp add: run_Cons)
  qed
qed

lemma load_single_flight: "load_widget e ls = Inr w \<Longrightarrow> single_flight (w, [])"
  by (auto simp add: load_widget_def single_flight_def appendMessage_def
      split: prod.splits sum.splits)

lemma resumptions_bound: "resumptions_left t \<le> 2 * MAX_RETRIES + 3"
  by (cases t) simp_all


lemma replicate_two: "2 \<le> N \<Longrightarrow> replicate N x = x # x # replicate (N - 2) x"
  by (cases N; cases "N - 1") simp_all

lemma run_fetch:
  "resumptions_left (AwaitFetch url (attach_headers e opts w0) a (length (fetch_log w0))) \<le> N \<Longrightarrow>
   run (replicate N (e, Resume 0))
     (w0\<lparr>fetch_log := fetch_log w0 @ [(url, attach_headers e opts w0)]\<rparr>,
      [AwaitFetch url (attach_headers e opts w0) a (length (fetch_log w0))]) =
   (release (case fetchWithRetry e url opts a w0 of
               (Inr r, w3) \<Rightarrow> try_response r w3
             | (Inl err, w3) \<Rightarrow> handle_error err w3), [])"
proof (induction "MAX_RETRIES - a" arbitrary: a w0 opts N)
  case 0
  then have N: "2 \<le> N" and a: "MAX_RETRIES \<le> a" by simp_all
  show ?case
  proof (cases "server e (length (fetch_log w0))")
    case Rejected
    then show ?thesis
      unfolding replicate_two [OF N]
      by (simp add: run_Cons run_idle fetchWithRetry_rejected)
  next
    case (Resolved r)
    with a show ?thesis
      unfolding replicate_two [OF N]
      by (simp add: run_Cons run_idle fetchWithRetry_returns)
  qed
next
  case (Suc d)
  then have N: "2 \<le> N" and a: "a < MAX_RETRIES" "d = MAX_RETRIES - (a + 1)" by simp_all
  show ?case
  proof (cases "server e (length (fetch_log w0))")
    case Rejected
    then show ?thesis
      unfolding replicate_two [OF N]
      by (simp add: run_Cons run_idle fetchWithRetry_rejected)
  next
    case (Resolved r)
    show ?thesis
    proof (cases "status r = 429")
      case False
      with Resolved show ?thesis
        unfolding replicate_two [OF N]
        by (simp add: run_Cons run_idle fetchWithRetry_returns)
    next
      case True
      let ?opts1 = "attach_headers e opts w0"
      let ?w = "setTimeout (waitMs r a) (w0\<lparr>fetch_log := fetch_log w0 @ [(url, ?opts1)]\<rparr>)"
      have left: "resumptions_left (AwaitFetch url (attach_headers e ?opts1 ?w) (a + 1)
          (length (fetch_log ?w))) \<le> N - 2"
        using Suc.prems a(1) by simp
      have two: "run (replicate N (e, Resume 0))
          (w0\<lparr>fetch_log := fetch_log w0 @ [(url, ?opts1)]\<rparr>,
           [AwaitFetch url ?opts1 a (length (fetch_log w0))]) =
        run (replicate (N - 2) (e, Resume 0))
          (?w\<lparr>fetch_log := fetch_log ?w @ [(url, attach_headers e ?opts1 ?w)]\<rparr>,
           [AwaitFetch url (attach_headers e ?opts1 ?w) (a + 1) (length (fetch_log ?w))])"
        unfolding replicate_two [OF N] using Resolved True a(1)
        by (simp add: run_Cons begin_fetch_def fetch_def Let_def setTimeout_def)
      show ?thesis
        unfolding two Suc.hyps(1) [OF a(2) left]
          fetchWithRetry_retries [OF Resolved True a(1)] ..
    qed
  qed
qed

text \<open>
  The submission run in one go is the call followed by its resumptions, when nothing else
  runs in between.
\<close>

lemma send_is_run:
  assumes "\<not> inFlight w"
  shows "run ((e, Call m f i) # replicate (2 * MAX_RETRIES + 2) (e, Resume 0)) (w, []) =
     (sendMessageToServer e m f i w, [])"
proof (cases "m = [] \<and> f = None")
  case True
  with assms show ?thesis
    by (simp add: run_Cons run_idle sendMessageToServer_def)
next
  case False
  let ?w2 = "appendMessage User (own_text m f) (w\<lparr>inFlight := True\<rparr>)"
  let ?opts = "compose e m f i ?w2"
  have c: "?opts = compose e m f i w"
    by (rule compose_session) (simp add: appendMessage_def)
  let ?N = "2 * MAX_RETRIES + 2"
  have first: "step e (Call m f i) (w, []) =
      (?w2\<lparr>fetch_log := fetch_log ?w2 @ [(API_CHAT, attach_headers e ?opts ?w2)]\<rparr>,
       [AwaitFetch API_CHAT (attach_headers e ?opts ?w2) 0 (length (fetch_log ?w2))])"
    using assms False by (auto simp add: begin_fetch_def fetch_def Let_def)
  have left: "resumptions_left
      (AwaitFetch API_CHAT (attach_headers e ?opts ?w2) 0 (length (fetch_log ?w2))) \<le> ?N"
    by simp
  have "run ((e, Call m f i) # replicate ?N (e, Resume 0)) (w, []) =
      run (replicate ?N (e, Resume 0)) (step e (Call m f i) (w, []))"
    by (rule run_Cons)
  also have "\<dots> = (release (case fetchWithRetry e API_CHAT ?opts 0 ?w2 of
               (Inr r, w3) \<Rightarrow> try_response r w3
             | (Inl err, w3) \<Rightarrow> handle_error err w3), [])"
    unfolding first using left by (rule run_fetch)
  also have "\<dots> = (sendMessageToServer e m f i w, [])"
    using False assms by (simp add: send_started c)
  finally show ?thesis .
qed


text \<open>
  Claim C3. While a submission is in flight, a call of \<open>sendMessageToServer\<close> appends the
  "please wait" notice and returns: no request, no other change of state, no new suspended
  submission. From a page where at most one submission is suspended and the flag is set
  exactly when one is, as the page is when the script has loaded, every run of calls and
  resumptions leads to such a page. A run
  differs from the same run without the calls made in flight only by the notices among
  the messages, so those calls leave the outcome of the submission in flight as it is. A
  suspended submission ends within \<open>2 * MAX_RETRIES + 3\<close> resumptions, whatever the network
  answers and whatever the page is then, and ends with the flag cleared; so does a submission run in one go from a page
  with the flag clear, whether it succeeds, is answered with an error status, or its
  fetch is rejected.
\<close>

theorem single_in_flight:
  "(inFlight w \<longrightarrow>
      step e (Call m f i) (w, ts) =
        (w\<lparr>messagesEl := messagesEl w @
            [(Bot, js ''Please wait '' @ [0x2014] @ js '' processing previous message.'')]\<rparr>,
         ts) \<and>
      sendMessageToServer e m f i w =
        w\<lparr>messagesEl := messagesEl w @
            [(Bot, js ''Please wait '' @ [0x2014] @ js '' processing previous message.'')]\<rparr>) \<and>
   (single_flight p \<longrightarrow> single_flight (run evs p)) \<and>
   (load_widget e ls = Inr w \<longrightarrow> single_flight (run evs (w, []))) \<and>
   same_but_notices (run_unless_busy evs p) (run evs p) \<and>
   (2 * MAX_RETRIES + 3 \<le> length es \<longrightarrow>
      snd (run (map (\<lambda>x. (x, Resume 0)) es) (w, [t])) = [] \<and>
      \<not> inFlight (fst (run (map (\<lambda>x. (x, Resume 0)) es) (w, [t])))) \<and>
   (\<not> inFlight w \<longrightarrow>
      \<not> inFlight (sendMessageToServer e m f i w) \<and>
      run ((e, Call m f i) # replicate (2 * MAX_RETRIES + 2) (e, Resume 0)) (w, []) =
        (sendMessageToServer e m f i w, []))"
proof (intro conjI impI)
  assume "inFlight w"
  then show "step e (Call m f i) (w, ts) =
        (w\<lparr>messagesEl := messagesEl w @
            [(Bot, js ''Please wait '' @ [0x2014] @ js '' processing previous message.'')]\<rparr>,
         ts)"
    and "sendMessageToServer e m f i w =
        w\<lparr>messagesEl := messagesEl w @
            [(Bot, js ''Please wait '' @ [0x2014] @ js '' processing previous message.'')]\<rparr>"
    by (simp_all add: sendMessageToServer_def appendMessage_def please_wait_def)
next
  assume "single_flight p"
  then show "single_flight (run evs p)" by (rule run_single_flight)
next
  assume "load_widget e ls = Inr w"
  then have "single_flight (w, [])" by (rule load_single_flight)
  then show "single_flight (run evs (w, []))" by (rule run_single_flight)
next
  show "same_but_notices (run_unless_busy evs p) (run evs p)"
    by (rule run_simulation) (rule same_but_notices_refl)
next
  assume "2 * MAX_RETRIES + 3 \<le> length es"
  with resumptions_bound [of t] have "resumptions_left t \<le> length es" by simp
  from run_to_end [OF this, of w]
  show "snd (run (map (\<lambda>x. (x, Resume 0)) es) (w, [t])) = []"
    and "\<not> inFlight (fst (run (map (\<lambda>x. (x, Resume 0)) es) (w, [t])))"
    by simp_all
next
  assume idle: "\<not> inFlight w"
  show "run ((e, Call m f i) # replicate (2 * MAX_RETRIES + 2) (e, Resume 0)) (w, []) =
        (sendMessageToServer e m f i w, [])"
    using idle by (rule send_is_run)
  show "\<not> inFlight (sendMessageToServer e m f i w)"
  proof (cases "m = [] \<and> f = None")
    case True
    with idle show ?thesis by (simp add: sendMessageToServer_def)
  next
    case False
    then have "m \<noteq> [] \<or> f \<noteq> None" by simp
    from send_started [OF idle this] show ?thesis by (simp add: release_def)
  qed
qed

lemmas run_defs =
  run_def run_unless_busy_def step_defs try_response_def handle_response_def compose_def own_text_def language_def getToken_def
  errText_def ok_def empty_object_def setItem_def JSON_stringify_def sample_events_def

theorem single_in_flight_witness:
  "step (sample_env (always adopting)) (Call (js ''again'') None None)
      (sample_world\<lparr>inFlight := True\<rparr>, [AwaitJson adopting]) =
     (sample_world\<lparr>inFlight := True,
        messagesEl := [(Bot, js ''Hello! How can I help you today?''),
          (Bot, js ''Please wait '' @ [0x2014] @ js '' processing previous message.'')]\<rparr>,
      [AwaitJson adopting]) \<and>
   single_flight (run sample_events (sample_world\<lparr>inFlight := True\<rparr>, [AwaitJson adopting])) \<and>
   load_widget (sample_env offline) [] = Inr sample_world \<and>
   single_flight (run sample_events (sample_world, [])) \<and>
   snd (run (map (\<lambda>x. (x, Resume 0)) (replicate 11 (sample_env (always too_many))))
     (sample_world\<lparr>inFlight := True\<rparr>, [AwaitTimer API_CHAT sample_opts 0])) = [] \<and>
   \<not> inFlight (fst (run (map (\<lambda>x. (x, Resume 0)) (replicate 11 (sample_env (always too_many))))
     (sample_world\<lparr>inFlight := True\<rparr>, [AwaitTimer API_CHAT sample_opts 0]))) \<and>
   same_but_notices
     (run_unless_busy sample_events (sample_world, []))
     (run sample_events (sample_world, [])) \<and>
   messagesEl (fst (run sample_events (sample_world, []))) =
     [(Bot, js ''Hello! How can I help you today?''), (User, js ''hi''),
      (Bot, js ''Please wait '' @ [0x2014] @ js '' processing previous message.''),
      (Bot, js ''Please wait '' @ [0x2014] @ js '' processing previous message.''),
      (Bot, js ''Hi there'')] \<and>
   messagesEl (fst (run_unless_busy sample_events
      (sample_world, []))) =
     [(Bot, js ''Hello! How can I help you today?''), (User, js ''hi''),
      (Bot, js ''Hi there'')] \<and>
   length (fetch_log (fst (run sample_events
      (sample_world, [])))) = 1 \<and>
   \<not> inFlight (sendMessageToServer (sample_env offline) (js ''hi'') None None sample_world)"
proof -
  let ?E = "sample_env (always adopting)"
  let ?busy = "sample_world\<lparr>inFlight := True\<rparr>"
  have h1: "inFlight ?busy" by simp
  have h2: "single_flight (?busy, [AwaitJson adopting])"
    by (simp add: single_flight_def)
  have h3: "\<not> inFlight sample_world"
    by (simp add: sample_world_def)
  have h4: "load_widget (sample_env offline) [] = Inr sample_world"
    by (simp add: load_widget_def getSession_def getItem_def no_text_def JSON_stringify_def
        JSON_parse_def genSessionId_def setItem_def sample_world_def
        sample_session_def sample_env_def greeting_def appendMessage_def js_def)
  have h5: "2 * MAX_RETRIES + 3 \<le> length (replicate 11 (sample_env (always too_many)))"
    by (simp add: MAX_RETRIES_def)
  note busy = single_in_flight [where w = ?busy and e = ?E and m = "js ''again''" and f = None
      and i = None and ts = "[AwaitJson adopting]", THEN conjunct1, THEN mp, OF h1, THEN conjunct1]
  note inv = single_in_flight [where p = "(?busy, [AwaitJson adopting])" and evs = sample_events,
      THEN conjunct2, THEN conjunct1, THEN mp, OF h2]
  note loaded = single_in_flight [where e = "sample_env offline" and ls = "[]"
      and w = sample_world and evs = sample_events,
      THEN conjunct2, THEN conjunct2, THEN conjunct1, THEN mp, OF h4]
  note sim = single_in_flight [where p = "(sample_world, [])" and evs = sample_events,
      THEN conjunct2, THEN conjunct2, THEN conjunct2, THEN conjunct1]
  note ends = single_in_flight [where es = "replicate 11 (sample_env (always too_many))"
      and w = "?busy" and t = "AwaitTimer API_CHAT sample_opts 0",
      THEN conjunct2, THEN conjunct2, THEN conjunct2, THEN conjunct2, THEN conjunct1, THEN mp,
      OF h5]
  note seq = single_in_flight [where w = sample_world and e = "sample_env offline"
      and m = "js ''hi''" and f = None and i = None,
      THEN conjunct2, THEN conjunct2, THEN conjunct2, THEN conjunct2, THEN conjunct2, THEN mp,
      OF h3, THEN conjunct1]
  have msgs: "messagesEl (fst (run sample_events (sample_world, []))) =
     [(Bot, js ''Hello! How can I help you today?''), (User, js ''hi''),
      (Bot, please_wait), (Bot, please_wait), (Bot, js ''Hi there'')]"
    by (simp add: run_defs sample_defs2 js_def MAX_RETRIES_def)
  have quiet: "messagesEl (fst (run_unless_busy sample_events (sample_world, []))) =
     [(Bot, js ''Hello! How can I help you today?''), (User, js ''hi''),
      (Bot, js ''Hi there'')]"
    by (simp add: run_defs sample_defs2 js_def MAX_RETRIES_def)
  have one: "length (fetch_log (fst (run sample_events (sample_world, [])))) = 1"
    by (simp add: run_defs sample_defs2 js_def MAX_RETRIES_def)
  from busy inv h4 loaded sim ends seq msgs quiet one show ?thesis
    by (simp add: sample_world_def please_wait_def)
qed

end
